theory Spec2Isabelle
  imports Main "HOL-Library.AList" "HOL-Library.Word"
begin

section \<open>Values, dictionaries and errors\<close>

text \<open>
  Python values that occur as IV values, extra data and context entries.
\<close>

datatype val = VNone | VBool bool | VInt int | VStr string

text \<open>
  A Python \<open>dict\<close> with string keys, in insertion order: an association list with distinct
  keys.  \<open>d[k] = v\<close> and \<open>d.update({k: v})\<close> are \<open>AList.update k v d\<close> (an existing key
  keeps its place, a new key goes to the end); \<open>d.get(k)\<close> is \<open>map_of d k\<close>.
\<close>

type_synonym dict = "(string \<times> val) list"

datatype error = TypeError | ValueError | KeyError | IndexError | AttributeError | StopIteration

definition dict_update :: "dict \<Rightarrow> dict \<Rightarrow> dict" where
  \<comment> \<open>\<open>d.update(e)\<close>: the items of \<open>e\<close> are stored in \<open>d\<close>, in the order of \<open>e\<close>.\<close>
  "dict_update d e = fold (\<lambda>(k, v) acc. AList.update k v acc) e d"

definition dict_of :: "(string \<times> val) list \<Rightarrow> dict" where
  \<comment> \<open>\<open>dict(pairs)\<close>: a later pair with the same key overwrites the value.\<close>
  "dict_of ps = dict_update [] ps"

section \<open>Design.full-cross\<close>

text \<open>
  \<open>itertools.product(*pools)\<close>, as the standard library documents it:
  \<^verbatim>\<open>result = [[]]
for pool in pools:
    result = [x+[y] for x in result for y in pool]\<close>
\<close>

definition itertools_product :: "'a list list \<Rightarrow> 'a list list" where
  "itertools_product pools =
     fold (\<lambda>pool result. concat (map (\<lambda>x. map (\<lambda>y. x @ [y]) pool) result)) pools [[]]"

text \<open>
  \<open>full_cross(iv_names, iv_values)\<close>.  An IV whose values are \<open>None\<close> is not iterable:
  \<open>itertools.product\<close> raises \<open>TypeError\<close>.  The generator is modelled by the list of what
  it yields.
\<close>

definition full_cross :: "string list \<Rightarrow> val list option list \<Rightarrow> error + dict list" where
  "full_cross iv_names iv_values =
     (if None \<in> set iv_values then Inl TypeError
      else Inr (map (\<lambda>iv_combination. dict_of (zip iv_names iv_combination))
                  (itertools_product (map the iv_values))))"

section \<open>The Ordering collaborator\<close>

text \<open>
  A \<open>ChainMap\<close>: its \<open>maps\<close>, the section's own layer first.  \<open>get_order\<close> receives a
  context or \<open>None\<close>.
\<close>

type_synonym chain_map = "dict list"

text \<open>
  Modelled from the spec: the Ordering classes of \<open>experimentator.order\<close>, which is not among
  the source files.  The spec gives the contract: \<open>get_order(ancestor-context)\<close> returns an
  ordered sequence of condition mappings, \<open>first_pass(all-conditions)\<close> returns
  \<open>(synthetic-iv-name, synthetic-iv-values)\<close>, empty for ordinary orderings and non-empty
  for a non-atomic one.  An ordering is a stateful object (it keeps the conditions, a
  shuffle draws random numbers), so each method also gives the object after the call; no
  further assumption is made about it.  The synthetic IV name is \<open>None\<close> for the empty
  tuple \<open>()\<close> and \<open>Some name\<close> for a string.
\<close>

codatatype ordering = Ordering
  (first_pass_result: "dict list \<Rightarrow> string option \<times> val list")
  (first_pass_next: "dict list \<Rightarrow> ordering")
  (get_order_result: "chain_map option \<Rightarrow> dict list")
  (get_order_next: "chain_map option \<Rightarrow> ordering")

text \<open>Python truth of the returned IV name: \<open>()\<close> and \<open>''\<close> are false.\<close>

definition truthy_name :: "string option \<Rightarrow> bool" where
  "truthy_name n = (case n of None \<Rightarrow> False | Some s \<Rightarrow> s \<noteq> [])"

text \<open>Python truth of an IV's values: \<open>None\<close> and an empty list are false.\<close>

definition truthy_values :: "val list option \<Rightarrow> bool" where
  "truthy_values vs = (case vs of None \<Rightarrow> False | Some xs \<Rightarrow> xs \<noteq> [])"

text \<open>
  The two orderings the \<open>Design\<close> constructor takes from \<open>experimentator.order\<close> when none
  is given: \<open>order.Shuffle()\<close> and \<open>order.Ordering()\<close>.  They are parameters of the model.
\<close>

record order_module =
  Shuffle_default :: ordering
  Ordering_default :: ordering

section \<open>Design\<close>

text \<open>
  A design matrix is a list of rows of cells.  The cells are signed 64-bit integers, the
  \<open>int64\<close> that NumPy makes of a nested list of such Python integers; \<open>sint\<close> is the
  integer a cell holds.  Matrices of floating-point numbers are not modelled.  The
  attributes of a \<open>Design\<close> are those its constructor sets; an IV with continuous values
  has \<open>None\<close> for its values.
\<close>

type_synonym matrix = "64 word list list"

record design =
  iv_names :: "string list"
  iv_values :: "val list option list"
  design_matrix :: "matrix option"
  extra_data :: dict
  ordering :: ordering

text \<open>
  \<open>Design.__init__(ivs, design_matrix, ordering, extra_data)\<close>.  \<open>ivs\<close> is the list of
  \<open>(name, values)\<close> pairs (a dict's items; \<open>None\<close> is the empty list).  A given ordering
  object counts as true.
\<close>

definition Design_init ::
  "order_module \<Rightarrow> (string \<times> val list option) list \<Rightarrow> matrix option \<Rightarrow> ordering option \<Rightarrow>
   dict option \<Rightarrow> error + design" where
  "Design_init order ivs dm ord_arg extra =
     (let self = \<lparr> iv_names = map fst ivs,
                   iv_values = map snd ivs,
                   design_matrix = dm,
                   extra_data = (case extra of None \<Rightarrow> [] | Some e \<Rightarrow> e),
                   ordering = (case ord_arg of
                                 Some ob \<Rightarrow> ob
                               | None \<Rightarrow> (if dm = None then Shuffle_default order
                                          else Ordering_default order)) \<rparr>
      in if design_matrix self = None \<and> list_ex (\<lambda>vs. vs = None) (iv_values self)
         then Inl TypeError
         else Inr self)"

text \<open>
  \<open>Design.get_order(data)\<close>: every condition the ordering returns is updated with the
  extra data.  The result is the condition list and the design with its ordering after
  the call.
\<close>

definition get_order :: "design \<Rightarrow> chain_map option \<Rightarrow> dict list \<times> design" where
  "get_order self data =
     (let condition_order = get_order_result (ordering self) data
      in (map (\<lambda>condition. dict_update condition (extra_data self)) condition_order,
          self\<lparr>ordering := get_order_next (ordering self) data\<rparr>))"

text \<open>\<open>Design.update(names, values)\<close>.\<close>

definition Design_update :: "design \<Rightarrow> string list \<Rightarrow> val list option list \<Rightarrow> design" where
  "Design_update self names vals =
     self\<lparr>iv_names := iv_names self @ names, iv_values := iv_values self @ vals\<rparr>"

text \<open>
  \<open>np.unique(column)\<close>: the distinct cells in ascending order of the integers they hold.
\<close>

definition np_unique :: "64 word list \<Rightarrow> 64 word list" where
  "np_unique column = sort_key sint (remdups column)"

text \<open>
  \<open>np.transpose(design_matrix)\<close> gives the columns.  Rows of different lengths do not
  make a two-dimensional array: NumPy (from 1.24 on) raises \<open>ValueError\<close>.
\<close>

definition rectangular :: "matrix \<Rightarrow> bool" where
  "rectangular dm =
     (case dm of [] \<Rightarrow> True | row # rows \<Rightarrow> list_all (\<lambda>r. length r = length row) rows)"

definition values_per_factor :: "matrix \<Rightarrow> error + 64 word list list" where
  "values_per_factor dm =
     (if rectangular dm then Inr (map np_unique (transpose dm)) else Inl ValueError)"

text \<open>
  \<open>np.array(iv_values)[factor_values == design_matrix_value][0]\<close>.  What the array that
  NumPy makes of the declared values holds depends on NumPy's conversion of the list (a
  list of values of several kinds is converted to one kind): the conversion is the
  parameter \<open>np_array\<close>, from the list to the values the array holds.  The boolean mask
  must have the length of the array (\<open>IndexError\<close> otherwise); the index selects the
  values at the positions where the mask is true, and \<open>[0]\<close> takes the first of them
  (\<open>IndexError\<close> when there is none).
\<close>

definition decode_cell ::
  "(val list \<Rightarrow> val list) \<Rightarrow> val list option \<Rightarrow> 64 word list \<Rightarrow> 64 word \<Rightarrow> error + val" where
  "decode_cell np_array ivv factor_values design_matrix_value =
     (if truthy_values ivv then
        (if length (np_array (the ivv)) \<noteq> length factor_values then Inl IndexError
         else (case filter (\<lambda>(v, f). f = design_matrix_value)
                      (zip (np_array (the ivv)) factor_values) of
                 [] \<Rightarrow> Inl IndexError
               | (v, f) # rest \<Rightarrow> Inr v))
      else Inr (VInt (sint design_matrix_value)))"

text \<open>The inner loop of \<open>_parse_design_matrix\<close> over the zipped columns of one row.\<close>

fun parse_row ::
  "(val list \<Rightarrow> val list) \<Rightarrow> dict \<Rightarrow> (string \<times> val list option \<times> 64 word list \<times> 64 word) list \<Rightarrow>
   error + dict" where
  "parse_row np_array condition [] = Inr condition"
| "parse_row np_array condition ((iv_name, ivv, factor_values, design_matrix_value) # rest) =
     (case decode_cell np_array ivv factor_values design_matrix_value of
        Inl e \<Rightarrow> Inl e
      | Inr v \<Rightarrow> parse_row np_array (AList.update iv_name v condition) rest)"

text \<open>The outer loop over the rows: each condition starts as a copy of the extra data.\<close>

fun parse_rows ::
  "(val list \<Rightarrow> val list) \<Rightarrow> design \<Rightarrow> 64 word list list \<Rightarrow> matrix \<Rightarrow> error + dict list" where
  "parse_rows np_array self vpf [] = Inr []"
| "parse_rows np_array self vpf (row # rows) =
     (case parse_row np_array (extra_data self)
             (zip (iv_names self) (zip (iv_values self) (zip vpf row))) of
        Inl e \<Rightarrow> Inl e
      | Inr condition \<Rightarrow>
          (case parse_rows np_array self vpf rows of
             Inl e \<Rightarrow> Inl e
           | Inr conditions \<Rightarrow> Inr (condition # conditions)))"

text \<open>\<open>Design._parse_design_matrix(design_matrix)\<close>.\<close>

definition parse_design_matrix ::
  "(val list \<Rightarrow> val list) \<Rightarrow> design \<Rightarrow> matrix \<Rightarrow> error + dict list" where
  "parse_design_matrix np_array self dm =
     (case values_per_factor dm of
        Inl e \<Rightarrow> Inl e
      | Inr vpf \<Rightarrow>
          if list_ex (\<lambda>(ivv, vals). truthy_values ivv \<and> length (the ivv) \<noteq> length vals)
               (zip (iv_values self) vpf)
          then Inl ValueError
          else parse_rows np_array self vpf dm)"

text \<open>
  \<open>np.shape(design_matrix)[1]\<close>: the number of columns.  With no row the shape is \<open>(0,)\<close>
  and the index raises \<open>IndexError\<close>; rows of different lengths do not make a
  two-dimensional array (\<open>ValueError\<close> in NumPy from 1.24 on).
\<close>

definition np_shape_1 :: "matrix \<Rightarrow> error + nat" where
  "np_shape_1 dm =
     (case dm of
        [] \<Rightarrow> Inl IndexError
      | row # rows \<Rightarrow> if list_all (\<lambda>r. length r = length row) rows then Inr (length row)
                     else Inl ValueError)"

text \<open>
  \<open>Design.first_pass()\<close>: the conditions go to the ordering's \<open>first_pass\<close>, whose result
  is returned, with the design holding the ordering after the call.  \<open>full_cross\<close> is a
  generator; the ordering is taken to consume it, so an error in it is raised here.
  \<open>np_array\<close> is NumPy's conversion, which the decoding of a design matrix uses.
\<close>

definition Design_first_pass ::
  "(val list \<Rightarrow> val list) \<Rightarrow> design \<Rightarrow> error + (string option \<times> val list) \<times> design" where
  "Design_first_pass np_array self =
     (case (case design_matrix self of
              Some dm \<Rightarrow>
                (case np_shape_1 dm of
                   Inl e \<Rightarrow> Inl e
                 | Inr n \<Rightarrow> if \<not> n = length (iv_names self) then Inl TypeError
                           else parse_design_matrix np_array self dm)
            | None \<Rightarrow> full_cross (iv_names self) (iv_values self)) of
        Inl e \<Rightarrow> Inl e
      | Inr all_conditions \<Rightarrow>
          Inr (first_pass_result (ordering self) all_conditions,
               self\<lparr>ordering := first_pass_next (ordering self) all_conditions\<rparr>))"

text \<open>
  \<open>is_heterogeneous\<close> and \<open>branches\<close>.  \<open>dict(zip(iv_names, iv_values)).get('design', ())\<close>
  is the value list of the last IV named \<open>design\<close>; \<open>()\<close> when there is none.  Iterating
  over \<open>None\<close> values raises; the branch names are the string values.
\<close>

definition heterogeneous_design_iv_name :: string where
  "heterogeneous_design_iv_name = ''design''"

definition is_heterogeneous :: "design \<Rightarrow> bool" where
  "is_heterogeneous self = (heterogeneous_design_iv_name \<in> set (iv_names self))"

definition Design_branches :: "design \<Rightarrow> val list option" where
  "Design_branches self =
     (case map_of (rev (zip (iv_names self) (iv_values self))) heterogeneous_design_iv_name of
        None \<Rightarrow> Some []
      | Some vs \<Rightarrow> vs)"

text \<open>
  Modelled from the spec: two orderings that meet the collaborator's contract, for
  evaluating the model on concrete designs.  \<open>atomic_ordering\<close> keeps the conditions of
  \<open>first_pass\<close> and returns them in their order, with an empty synthetic IV;
  \<open>non_atomic_ordering\<close> does the same and returns the synthetic IV it was made with.
\<close>

primcorec atomic_ordering :: "dict list \<Rightarrow> ordering" where
  "atomic_ordering conds =
     Ordering (\<lambda>all_conditions. (None, []))
              (\<lambda>all_conditions. atomic_ordering all_conditions)
              (\<lambda>data. conds)
              (\<lambda>data. atomic_ordering conds)"

primcorec non_atomic_ordering :: "string \<Rightarrow> val list \<Rightarrow> dict list \<Rightarrow> ordering" where
  "non_atomic_ordering name vals conds =
     Ordering (\<lambda>all_conditions. (Some name, vals))
              (\<lambda>all_conditions. non_atomic_ordering name vals all_conditions)
              (\<lambda>data. conds)
              (\<lambda>data. non_atomic_ordering name vals conds)"

definition example_order :: order_module where
  "example_order = \<lparr> Shuffle_default = atomic_ordering [], Ordering_default = atomic_ordering [] \<rparr>"

text \<open>
  The decoding worded apart from the code, for comparison with \<open>_parse_design_matrix\<close>:
  column \<open>c\<close> of the matrix, and the value of a cell of that column: for an IV with a
  non-empty list of declared values, the value that the array of the declared values
  holds at the rank of the cell's code among the distinct codes of the column in ascending
  order; otherwise the integer of the raw cell.
\<close>

definition column :: "matrix \<Rightarrow> nat \<Rightarrow> 64 word list" where
  "column dm c = map (\<lambda>row. row ! c) dm"


text \<open>
  Modelled from NumPy, for evaluating the model on concrete value lists: what
  \<open>np.array(values)\<close> holds, for values that are \<open>None\<close>, bools, integers of at most 64
  bits and strings without NUL characters.  With a \<open>None\<close> in the list the array holds the
  objects as they are.  Otherwise, with a string in the list, it holds strings, \<open>str(v)\<close>
  for every value; a list of bools is held as it is; bools among integers are held as the
  integers 1 and 0.
\<close>

function str_nat :: "nat \<Rightarrow> string" where
  "str_nat n = (if n < 10 then [''0123456789'' ! n]
                else str_nat (n div 10) @ [''0123456789'' ! (n mod 10)])"
  by pat_completeness auto
termination
  by (relation "measure (\<lambda>n. n)") auto

declare str_nat.simps [simp del]

definition str_int :: "int \<Rightarrow> string" where
  "str_int i = (if i < 0 then CHR ''-'' # str_nat (nat (- i)) else str_nat (nat i))"

definition py_str :: "val \<Rightarrow> string" where
  "py_str v =
     (case v of
        VNone \<Rightarrow> ''None''
      | VBool b \<Rightarrow> (if b then ''True'' else ''False'')
      | VInt i \<Rightarrow> str_int i
      | VStr s \<Rightarrow> s)"

definition np_array_example :: "val list \<Rightarrow> val list" where
  "np_array_example vs =
     (if VNone \<in> set vs then vs
      else if list_ex (\<lambda>v. case v of VStr s \<Rightarrow> True | _ \<Rightarrow> False) vs
           then map (\<lambda>v. VStr (py_str v)) vs
      else if list_all (\<lambda>v. case v of VBool b \<Rightarrow> True | _ \<Rightarrow> False) vs then vs
      else map (\<lambda>v. case v of VBool b \<Rightarrow> VInt (if b then 1 else 0) | _ \<Rightarrow> v) vs)"



section \<open>DesignTree\<close>

text \<open>
  \<open>Level = namedtuple('Level', ('name', 'design'))\<close>; after the constructor's
  normalisation the \<open>design\<close> of a level is a list of designs.
\<close>

datatype level = Level (level_name: string) (level_design: "design list")

text \<open>
  A level as the caller gives it: a name with one \<open>Design\<close> or with a list of them.
\<close>

datatype design_spec = One design | Many "design list"

text \<open>
  The attributes of a \<open>DesignTree\<close>.  A named alternate in \<open>other_designs\<close> is a
  \<open>DesignTree\<close> or a raw specification (a list of levels); the keyword arguments and the
  branch map are dicts in insertion order.
\<close>

datatype design_tree = DesignTree
    (levels_and_designs: "level list")
    (other_designs: "(string \<times> other_design) list")
    (tree_branches: "(string \<times> design_tree) list")
  and other_design = Built design_tree | Raw "(string \<times> design_spec) list"

text \<open>
  \<open>DesignTree.__len__\<close>: the number of levels, plus the length of the first branch of
  the branch map when the map is not empty.
\<close>

fun DesignTree_len :: "design_tree \<Rightarrow> nat" where
  "DesignTree_len (DesignTree levels others []) = length levels"
| "DesignTree_len (DesignTree levels others ((branch_name, branch) # rest)) =
     length levels + DesignTree_len branch"

text \<open>
  What \<open>next(tree)\<close> returns: a tree, or the branch map of a heterogeneous tree.
\<close>

datatype cursor = Tree design_tree | Branches "(string \<times> design_tree) list"

text \<open>
  \<open>DesignTree.__next__\<close>.  \<open>copy(self)\<close> with the levels sliced shares the other
  attributes.
\<close>

definition DesignTree_next :: "design_tree \<Rightarrow> error + cursor" where
  "DesignTree_next self =
     (if DesignTree_len self = 1 then Inl StopIteration
      else if length (levels_and_designs self) = 1 then Inr (Branches (tree_branches self))
      else Inr (Tree (DesignTree (drop 1 (levels_and_designs self)) (other_designs self)
                        (tree_branches self))))"

text \<open>
  The peel operation as the specification words it, for comparison with \<open>__next__\<close>: on
  logical length 1 it is illegal; on logical length 2 with a single remaining level that
  is heterogeneous it yields the branch map; otherwise it yields the tree without its
  first level, the branch map unchanged.
\<close>

definition peel_spec :: "design_tree \<Rightarrow> error + cursor" where
  "peel_spec self =
     (if DesignTree_len self = 1 then Inl StopIteration
      else if DesignTree_len self = 2 \<and> length (levels_and_designs self) = 1
              \<and> is_heterogeneous (hd (level_design (hd (levels_and_designs self))))
           then Inr (Branches (tree_branches self))
      else Inr (Tree (DesignTree (drop 1 (levels_and_designs self)) (other_designs self)
                        (tree_branches self))))"

text \<open>
  Concrete designs and trees for evaluating the model.  \<open>design_plain\<close> is \<open>Design()\<close>
  with an order-preserving ordering and \<open>design_het\<close> declares the IV \<open>design\<close> with the
  branch \<open>a\<close>, both after their first pass; \<open>tree_het\<close> has one heterogeneous level and a
  branch of two levels.
\<close>

definition design_plain :: design where
  "design_plain = \<lparr> iv_names = [], iv_values = [], design_matrix = None, extra_data = [],
                     ordering = atomic_ordering [[]] \<rparr>"

definition design_het :: design where
  "design_het = \<lparr> iv_names = [''design''], iv_values = [Some [VStr ''a'']],
                   design_matrix = None, extra_data = [],
                   ordering = atomic_ordering [[(''design'', VStr ''a'')]] \<rparr>"

definition tree_two_levels :: design_tree where
  "tree_two_levels =
     DesignTree [Level ''trial'' [design_plain], Level ''sub'' [design_plain]] [] []"

definition tree_het :: design_tree where
  "tree_het = DesignTree [Level ''block'' [design_het]] [(''a'', Built tree_two_levels)]
                [(''a'', tree_two_levels)]"

text \<open>
  \<open>DesignTree.first_pass(levels_and_designs)\<close>; \<open>np_array\<close> is NumPy's conversion, passed
  on to the first pass of the designs.  The inner loop over the designs of the
  lower level of a pair calls each design's \<open>first_pass\<close> and collects the IVs whose name
  is true; the designs are returned as the calls leave them.
\<close>

fun first_pass_lower ::
  "(val list \<Rightarrow> val list) \<Rightarrow> design list \<Rightarrow> string list \<Rightarrow> val list option list \<Rightarrow>
   error + design list \<times> string list \<times> val list option list" where
  "first_pass_lower np_array [] new_iv_names new_iv_values =
     Inr ([], new_iv_names, new_iv_values)"
| "first_pass_lower np_array (d # ds) new_iv_names new_iv_values =
     (case Design_first_pass np_array d of
        Inl e \<Rightarrow> Inl e
      | Inr ((iv_name, iv_vals), d') \<Rightarrow>
          (case (if truthy_name iv_name
                 then first_pass_lower np_array ds (new_iv_names @ [the iv_name])
                        (new_iv_values @ [Some iv_vals])
                 else first_pass_lower np_array ds new_iv_names new_iv_values) of
             Inl e \<Rightarrow> Inl e
           | Inr (ds', names, vals) \<Rightarrow> Inr (d' # ds', names, vals)))"

text \<open>
  The loop over the pairs \<open>zip(reversed(levels[1:]), reversed(levels[:-1]))\<close>: the pair
  of the levels at \<open>j + 1\<close> and \<open>j\<close>, for \<open>j\<close> from the bottom up.  The designs are objects
  that the loop changes in place: the list of levels is returned with the changed designs.
\<close>

fun first_pass_pairs ::
  "(val list \<Rightarrow> val list) \<Rightarrow> nat \<Rightarrow> level list \<Rightarrow> error + level list" where
  "first_pass_pairs np_array 0 levels = Inr levels"
| "first_pass_pairs np_array (Suc j) levels =
     (case first_pass_lower np_array (level_design (levels ! Suc j)) [] [] of
        Inl e \<Rightarrow> Inl e
      | Inr (designs, new_iv_names, new_iv_values) \<Rightarrow>
          first_pass_pairs np_array j
            (levels [Suc j := Level (level_name (levels ! Suc j)) designs,
                     j := Level (level_name (levels ! j))
                            (map (\<lambda>design. Design_update design new_iv_names new_iv_values)
                               (level_design (levels ! j)))]))"

text \<open>
  The loop over the designs of the top level: each result replaces the one before, so
  the loop ends with the result of the last design.
\<close>

fun first_pass_top ::
  "(val list \<Rightarrow> val list) \<Rightarrow> design list \<Rightarrow> string option \<times> val list \<Rightarrow>
   error + design list \<times> (string option \<times> val list)" where
  "first_pass_top np_array [] result = Inr ([], result)"
| "first_pass_top np_array (d # ds) result =
     (case Design_first_pass np_array d of
        Inl e \<Rightarrow> Inl e
      | Inr (result', d') \<Rightarrow>
          (case first_pass_top np_array ds result' of
             Inl e \<Rightarrow> Inl e
           | Inr (ds', result'') \<Rightarrow> Inr (d' # ds', result'')))"

definition DesignTree_first_pass ::
  "(val list \<Rightarrow> val list) \<Rightarrow> level list \<Rightarrow> error + (string option \<times> val list) \<times> level list" where
  "DesignTree_first_pass np_array levels =
     (case first_pass_pairs np_array (length levels - 1) levels of
        Inl e \<Rightarrow> Inl e
      | Inr levels' \<Rightarrow>
          (case levels' of
             [] \<Rightarrow> Inl IndexError
           | top_level # rest \<Rightarrow>
               (case first_pass_top np_array (level_design top_level) (None, []) of
                  Inl e \<Rightarrow> Inl e
                | Inr (designs, result) \<Rightarrow>
                    Inr (result, Level (level_name top_level) designs # rest))))"

text \<open>
  \<open>DesignTree.__init__(levels_and_designs, **other_designs)\<close>.  The first argument is a
  list of levels or, in the recursive call on a named alternate that is a \<open>DesignTree\<close>,
  a tree: iterating over it gives its levels.  A lone \<open>Design\<close> becomes a list.
\<close>

definition normalize_level :: "string \<times> design_spec \<Rightarrow> level" where
  "normalize_level l =
     (case l of (level, One d) \<Rightarrow> Level level [d] | (level, Many ds) \<Rightarrow> Level level ds)"

definition initial_levels :: "other_design \<Rightarrow> level list" where
  "initial_levels lad =
     (case lad of Raw spec \<Rightarrow> map normalize_level spec | Built t \<Rightarrow> levels_and_designs t)"

text \<open>\<open>self.levels_and_designs[-1].design[0]\<close>.\<close>

definition bottom_level_design :: "level list \<Rightarrow> error + design" where
  "bottom_level_design levels =
     (if levels = [] then Inl IndexError
      else (case level_design (last levels) of [] \<Rightarrow> Inl IndexError | d # ds \<Rightarrow> Inr d))"

text \<open>
  The dict comprehension that starts the branch map keeps the named alternates for which
  \<open>branch in bottom_level_design.branches and isinstance(branch, DesignTree)\<close>.  The test
  compares the alternate itself, not its name, with the IV's values.  \<open>DesignTree.__eq__\<close>
  answers only another \<open>DesignTree\<close>, and a list of levels equals no value either: the
  comparison of an IV value with an alternate is false.
\<close>

definition value_eq_alternate :: "val \<Rightarrow> other_design \<Rightarrow> bool" where
  "value_eq_alternate v branch = False"

definition initial_branches ::
  "(string \<times> other_design) list \<Rightarrow> val list \<Rightarrow> (string \<times> design_tree) list" where
  "initial_branches others names =
     concat (map (\<lambda>(name, branch).
                    (case branch of
                       Built t \<Rightarrow> if list_ex (\<lambda>v. value_eq_alternate v branch) names
                                  then [(name, t)] else []
                     | Raw spec \<Rightarrow> []))
               others)"

text \<open>
  The constructor, and its loop \<open>for branch_name in bottom_level_design.branches\<close>.
  A branch name that is no key of \<open>other_designs\<close> (so also one that is no string) makes
  \<open>del designs_to_pass[branch_name]\<close> raise \<open>KeyError\<close>.  Objects are modelled by value:
  every construction starts from the designs as the specification holds them.
\<close>

lemma delete_shortens:
  "map_of others s = Some spec \<Longrightarrow> length (AList.delete s others) < length others"
proof -
  assume "map_of others s = Some spec"
  then have "(s, spec) \<in> set others" by (rule map_of_SomeD)
  then show ?thesis
    unfolding AList.delete_eq by (intro length_filter_less [of "(s, spec)"]) auto
qed

function DesignTree_init ::
    "(val list \<Rightarrow> val list) \<Rightarrow> other_design \<Rightarrow> (string \<times> other_design) list \<Rightarrow>
     error + design_tree"
  and build_branches ::
    "(val list \<Rightarrow> val list) \<Rightarrow> (string \<times> other_design) list \<Rightarrow> val list \<Rightarrow>
     (string \<times> design_tree) list \<Rightarrow> error + (string \<times> design_tree) list"
where
  "DesignTree_init np_array lad others =
     (case bottom_level_design (initial_levels lad) of
        Inl e \<Rightarrow> Inl e
      | Inr bottom \<Rightarrow>
          (case (if is_heterogeneous bottom
                 then (case Design_branches bottom of
                         None \<Rightarrow> Inl TypeError
                       | Some names \<Rightarrow>
                           build_branches np_array others names (initial_branches others names))
                 else Inr []) of
             Inl e \<Rightarrow> Inl e
           | Inr brs \<Rightarrow>
               (case DesignTree_first_pass np_array (initial_levels lad) of
                  Inl e \<Rightarrow> Inl e
                | Inr (top_level_iv, levels) \<Rightarrow>
                    if truthy_name (fst top_level_iv) then Inl ValueError
                    else Inr (DesignTree levels others brs))))"
| "build_branches np_array others [] brs = Inr brs"
| "build_branches np_array others (branch_name # rest) brs =
     (case branch_name of
        VStr s \<Rightarrow>
          if s \<in> set (map fst brs) then build_branches np_array others rest brs
          else (case map_of others s of
                  None \<Rightarrow> Inl KeyError
                | Some spec \<Rightarrow>
                    (case DesignTree_init np_array spec (AList.delete s others) of
                       Inl e \<Rightarrow> Inl e
                     | Inr tree \<Rightarrow>
                         build_branches np_array others rest (AList.update s tree brs)))
      | VNone \<Rightarrow> Inl KeyError
      | VBool b \<Rightarrow> Inl KeyError
      | VInt i \<Rightarrow> Inl KeyError)"
  by pat_completeness auto
termination
proof (relation "measures
    [\<lambda>x. case x of Inl (np_array, lad, others) \<Rightarrow> length others
                    | Inr (np_array, others, names, brs) \<Rightarrow> length others,
     \<lambda>x. case x of Inl (np_array, lad, others) \<Rightarrow> Suc 0
                    | Inr (np_array, others, names, brs) \<Rightarrow> 0,
     \<lambda>x. case x of Inl (np_array, lad, others) \<Rightarrow> 0
                    | Inr (np_array, others, names, brs) \<Rightarrow> length names]")
qed (auto simp: delete_shortens)

declare DesignTree_init.simps [simp del]

text \<open>
  A design whose matrix column has three distinct codes for an IV of two values, and a
  design with a non-atomic ordering.
\<close>

definition design_mismatch :: design where
  "design_mismatch = \<lparr> iv_names = [''side''], iv_values = [Some [VStr ''left'', VStr ''right'']],
       design_matrix = Some [[0], [1], [2]], extra_data = [], ordering = atomic_ordering [] \<rparr>"

definition design_non_atomic :: design where
  "design_non_atomic = \<lparr> iv_names = [''side''], iv_values = [Some [VStr ''left'', VStr ''right'']],
       design_matrix = None, extra_data = [],
       ordering = non_atomic_ordering ''order'' [VInt 0, VInt 1] [] \<rparr>"

text \<open>
  Designs as their constructor leaves them, before any first pass: \<open>Design()\<close> and a
  heterogeneous design with the branch \<open>a\<close>, both with an order-preserving ordering.
  \<open>tree_trial\<close> is a \<open>DesignTree\<close> of the single level \<open>trial\<close>, as its own constructor
  builds it with no named alternates.
\<close>

definition design_fresh :: design where
  "design_fresh = \<lparr> iv_names = [], iv_values = [], design_matrix = None, extra_data = [],
                     ordering = atomic_ordering [] \<rparr>"

definition design_het_fresh :: design where
  "design_het_fresh = \<lparr> iv_names = [''design''], iv_values = [Some [VStr ''a'']],
                         design_matrix = None, extra_data = [],
                         ordering = atomic_ordering [] \<rparr>"

definition tree_trial :: design_tree where
  "tree_trial = DesignTree [Level ''trial'' [design_plain]] [] []"

section \<open>ExperimentSection\<close>

text \<open>
  The context of a section is a \<open>ChainMap\<close>: its first map is the section's own, made by
  \<open>new_child()\<close>, and its other maps are, by reference, the maps of the parent's context.
  Every \<open>update\<close> of a context writes the first map.  The model keeps the own map in the
  node (\<open>own\<close>) and passes the other maps (\<open>parents\<close>) down from the parent, so that what
  an ancestor's map holds at the time of a lookup is what the descendant sees, as with the
  shared maps: the context of a section is \<open>own self # parents\<close>.  The other attributes
  are those the constructor sets; \<open>tree\<close> is what \<open>next\<close> returned to the parent, a
  \<open>DesignTree\<close> or a branch map.
\<close>

datatype experiment_section = ExperimentSection
  (own: dict)
  (tree: cursor)
  (level: string)
  (is_bottom_level: bool)
  (children: "experiment_section list")
  (has_started: bool)
  (has_finished: bool)
  (next_level: "string option")
  (next_designs: "design list option")

definition set_children :: "experiment_section list \<Rightarrow> experiment_section \<Rightarrow> experiment_section" where
  "set_children cs self =
     ExperimentSection (own self) (tree self) (level self) (is_bottom_level self) cs
       (has_started self) (has_finished self) (next_level self) (next_designs self)"

definition set_own :: "dict \<Rightarrow> experiment_section \<Rightarrow> experiment_section" where
  "set_own d self =
     ExperimentSection d (tree self) (level self) (is_bottom_level self) (children self)
       (has_started self) (has_finished self) (next_level self) (next_designs self)"

text \<open>
  \<open>**self.context\<close>: the keyword arguments are the items of the \<open>ChainMap\<close>, a key
  having the value of the first map that holds it.
\<close>

definition flatten :: "chain_map \<Rightarrow> dict" where
  "flatten maps = fold (\<lambda>m d. dict_update d m) (rev maps) []"

text \<open>Python truth of a value.\<close>

definition truthy :: "val \<Rightarrow> bool" where
  "truthy v = (case v of VNone \<Rightarrow> False | VBool b \<Rightarrow> b | VInt i \<Rightarrow> i \<noteq> 0 | VStr s \<Rightarrow> s \<noteq> [])"

text \<open>
  \<open>number_children\<close>: every child's own map gets its position, from 1, under the name
  of the next level.
\<close>

definition number_children :: "experiment_section \<Rightarrow> experiment_section" where
  "number_children self =
     set_children
       (map (\<lambda>(i, child). set_own (AList.update (the (next_level self)) (VInt (int i + 1))
                                      (own child)) child)
          (enumerate 0 (children self)))
       self"

text \<open>\<open>add_data(**kwargs)\<close>.\<close>

definition add_data :: "experiment_section \<Rightarrow> dict \<Rightarrow> experiment_section" where
  "add_data self kwargs = set_own (dict_update (own self) kwargs) self"

text \<open>\<open>next(self.tree)\<close>: a branch map is no iterator (\<open>TypeError\<close>).\<close>

definition py_next :: "cursor \<Rightarrow> error + cursor" where
  "py_next c = (case c of Tree t \<Rightarrow> DesignTree_next t | Branches b \<Rightarrow> Inl TypeError)"

text \<open>
  \<open>append_child(to_start, **context)\<close>.  The class constructor it calls is the parameter
  \<open>new_section\<close>, given the parent maps, the own map and the tree of the child.
  \<open>next(self.tree)\<close> is evaluated first.
\<close>

definition append_child ::
  "(chain_map \<Rightarrow> dict \<Rightarrow> cursor \<Rightarrow> error + experiment_section) \<Rightarrow> chain_map \<Rightarrow> experiment_section \<Rightarrow> bool \<Rightarrow>
   dict \<Rightarrow> error + experiment_section" where
  "append_child new_section parents self to_start kwargs =
     (case py_next (tree self) of
        Inl e \<Rightarrow> Inl e
      | Inr next_tree \<Rightarrow>
          (case new_section (own self # parents) (dict_update [] kwargs) next_tree of
             Inl e \<Rightarrow> Inl e
           | Inr child \<Rightarrow>
               Inr (number_children
                      (set_children (if to_start then child # children self
                                     else children self @ [child]) self))))"

text \<open>
  The call \<open>self.append_child(**new_context)\<close>, or with \<open>to_start=True\<close> given as well,
  binds the items of the condition to the parameters of \<open>append_child\<close>: a key \<open>self\<close>
  clashes with the receiver and a key \<open>to_start\<close> with a given \<open>to_start\<close> (\<open>TypeError\<close>);
  without a given one, a key \<open>to_start\<close> becomes the parameter.
\<close>

definition call_append_child ::
  "(chain_map \<Rightarrow> dict \<Rightarrow> cursor \<Rightarrow> error + experiment_section) \<Rightarrow> chain_map \<Rightarrow> experiment_section \<Rightarrow> bool \<Rightarrow>
   dict \<Rightarrow> error + experiment_section" where
  "call_append_child new_section parents self to_start_given new_context =
     (if ''self'' \<in> set (map fst new_context) then Inl TypeError
      else (case map_of new_context ''to_start'' of
              None \<Rightarrow> append_child new_section parents self to_start_given new_context
            | Some v \<Rightarrow>
                if to_start_given then Inl TypeError
                else append_child new_section parents self (truthy v)
                       (AList.delete ''to_start'' new_context)))"

text \<open>The loops of \<open>append_design\<close> over the conditions.\<close>

fun append_children ::
  "(chain_map \<Rightarrow> dict \<Rightarrow> cursor \<Rightarrow> error + experiment_section) \<Rightarrow> chain_map \<Rightarrow> experiment_section \<Rightarrow> bool \<Rightarrow>
   dict list \<Rightarrow> error + experiment_section" where
  "append_children new_section parents self to_start [] = Inr self"
| "append_children new_section parents self to_start (new_context # rest) =
     (case call_append_child new_section parents self to_start new_context of
        Inl e \<Rightarrow> Inl e
      | Inr self' \<Rightarrow> append_children new_section parents self' to_start rest)"

text \<open>
  \<open>append_design(design, to_start)\<close> calls \<open>design.order(**self.context)\<close>.  The attribute
  \<open>order\<close> of the design is the parameter \<open>order_attr\<close>: \<open>None\<close> when the object has no such
  attribute (\<open>AttributeError\<close>), else the method, from the design and the keyword
  arguments to the conditions.
\<close>

type_synonym order_method = "design \<Rightarrow> dict \<Rightarrow> error + dict list"

definition append_design ::
  "order_method option \<Rightarrow> (chain_map \<Rightarrow> dict \<Rightarrow> cursor \<Rightarrow> error + experiment_section) \<Rightarrow> chain_map \<Rightarrow>
   experiment_section \<Rightarrow> design \<Rightarrow> bool \<Rightarrow> error + experiment_section" where
  "append_design order_attr new_section parents self design to_start =
     (case order_attr of
        None \<Rightarrow> Inl AttributeError
      | Some order \<Rightarrow>
          (case order design (flatten (own self # parents)) of
             Inl e \<Rightarrow> Inl e
           | Inr conditions \<Rightarrow>
               if to_start then append_children new_section parents self True (rev conditions)
               else append_children new_section parents self False conditions))"

text \<open>The loop of the constructor over the designs of the next level.\<close>

fun append_designs ::
  "order_method option \<Rightarrow> (chain_map \<Rightarrow> dict \<Rightarrow> cursor \<Rightarrow> error + experiment_section) \<Rightarrow> chain_map \<Rightarrow>
   experiment_section \<Rightarrow> design list \<Rightarrow> error + experiment_section" where
  "append_designs order_attr new_section parents self [] = Inr self"
| "append_designs order_attr new_section parents self (design # rest) =
     (case append_design order_attr new_section parents self design False of
        Inl e \<Rightarrow> Inl e
      | Inr self' \<Rightarrow> append_designs order_attr new_section parents self' rest)"

text \<open>
  The class \<open>Design\<close> defines \<open>get_order\<close>, \<open>first_pass\<close>, \<open>update\<close>, \<open>full_cross\<close>,
  \<open>_parse_design_matrix\<close>, \<open>is_heterogeneous\<close>, \<open>branches\<close> and \<open>from_dict\<close>, and its
  instances have the attributes \<open>iv_names\<close>, \<open>iv_values\<close>, \<open>design_matrix\<close>, \<open>extra_data\<close>
  and \<open>ordering\<close>: a \<open>Design\<close> has no attribute \<open>order\<close>.
\<close>

definition Design_order_attr :: "order_method option" where
  "Design_order_attr = None"

text \<open>
  No method changes \<open>self.tree\<close>, and the methods call the constructor only on
  \<open>next(self.tree)\<close>: the facts by which the recursion of the constructor through
  \<open>append_design\<close> is seen to terminate.
\<close>

lemma tree_set_children [simp]: "tree (set_children cs self) = tree self"
  by (simp add: set_children_def)

lemma tree_number_children [simp]: "tree (number_children self) = tree self"
  by (simp add: number_children_def)

lemma append_child_tree:
  "append_child mk parents self to_start kw = Inr self' \<Longrightarrow> tree self' = tree self"
  by (auto simp: append_child_def split: sum.splits)

lemma call_append_child_tree:
  "call_append_child mk parents self to_start kw = Inr self' \<Longrightarrow> tree self' = tree self"
  by (auto simp: call_append_child_def split: if_splits option.splits dest: append_child_tree)

lemma append_child_cong:
  "(\<And>p d c. py_next (tree self) = Inr c \<Longrightarrow> mk p d c = mk' p d c) \<Longrightarrow>
   append_child mk parents self to_start kw = append_child mk' parents self to_start kw"
  by (simp add: append_child_def split: sum.splits)

lemma call_append_child_cong:
  "(\<And>p d c. py_next (tree self) = Inr c \<Longrightarrow> mk p d c = mk' p d c) \<Longrightarrow>
   call_append_child mk parents self to_start kw = call_append_child mk' parents self to_start kw"
  using append_child_cong [of self mk mk']
  by (simp add: call_append_child_def split: option.splits)

lemma append_children_cong:
  "(\<And>p d c. py_next (tree self) = Inr c \<Longrightarrow> mk p d c = mk' p d c) \<Longrightarrow>
   append_children mk parents self to_start cs = append_children mk' parents self to_start cs"
proof (induction cs arbitrary: self)
  case Nil
  show ?case by simp
next
  case (Cons c cs)
  have eq: "call_append_child mk parents self to_start c = call_append_child mk' parents self to_start c"
    using Cons.prems by (rule call_append_child_cong)
  show ?case
  proof (cases "call_append_child mk' parents self to_start c")
    case (Inl e)
    then show ?thesis using eq by simp
  next
    case (Inr s')
    then have "tree s' = tree self" by (rule call_append_child_tree)
    then have "append_children mk parents s' to_start cs = append_children mk' parents s' to_start cs"
      using Cons.prems by (intro Cons.IH) simp
    then show ?thesis using eq Inr by simp
  qed
qed

lemma append_children_tree:
  "append_children mk parents self to_start cs = Inr self' \<Longrightarrow> tree self' = tree self"
  by (induction cs arbitrary: self) (auto split: sum.splits dest: call_append_child_tree)

lemma append_design_tree:
  "append_design oa mk parents self d to_start = Inr self' \<Longrightarrow> tree self' = tree self"
  by (auto simp: append_design_def split: option.splits sum.splits if_splits
      dest: append_children_tree)

lemma append_design_cong:
  "(\<And>p d c. py_next (tree self) = Inr c \<Longrightarrow> mk p d c = mk' p d c) \<Longrightarrow>
   append_design oa mk parents self design to_start = append_design oa mk' parents self design to_start"
  using append_children_cong [of self mk mk']
  by (simp add: append_design_def split: option.splits sum.splits)

lemma append_designs_cong_aux:
  "(\<And>p d c. py_next (tree self) = Inr c \<Longrightarrow> mk p d c = mk' p d c) \<Longrightarrow>
   append_designs oa mk parents self ds = append_designs oa mk' parents self ds"
proof (induction ds arbitrary: self)
  case Nil
  show ?case by simp
next
  case (Cons d ds)
  have eq: "append_design oa mk parents self d False = append_design oa mk' parents self d False"
    using Cons.prems by (rule append_design_cong)
  show ?case
  proof (cases "append_design oa mk' parents self d False")
    case (Inl e)
    then show ?thesis using eq by simp
  next
    case (Inr s')
    then have "tree s' = tree self" by (rule append_design_tree)
    then have "append_designs oa mk parents s' ds = append_designs oa mk' parents s' ds"
      using Cons.prems by (intro Cons.IH) simp
    then show ?thesis using eq Inr by simp
  qed
qed

lemma append_designs_cong [fundef_cong]:
  "oa = oa' \<Longrightarrow> parents = parents' \<Longrightarrow> self = self' \<Longrightarrow> ds = ds' \<Longrightarrow>
   (\<And>p d c. py_next (tree self') = Inr c \<Longrightarrow> mk p d c = mk' p d c) \<Longrightarrow>
   append_designs oa mk parents self ds = append_designs oa' mk' parents' self' ds'"
  using append_designs_cong_aux [of self' mk mk' oa' parents' ds'] by simp

text \<open>The number of levels of a tree; a branch map has none.\<close>

definition levels_left :: "cursor \<Rightarrow> nat" where
  "levels_left c = (case c of Tree t \<Rightarrow> length (levels_and_designs t) | Branches b \<Rightarrow> 0)"

lemma py_next_levels_left:
  "py_next c = Inr c' \<Longrightarrow> 0 < levels_left c \<Longrightarrow> levels_left c' < levels_left c"
  by (auto simp: py_next_def DesignTree_next_def levels_left_def split: cursor.splits if_splits)

text \<open>
  \<open>ExperimentSection.__init__(context, tree)\<close>, the context being
  \<open>context_own # parents\<close>.  \<open>self.tree[0][0]\<close> is the name of the first level
  (\<open>KeyError\<close> on a branch map, whose keys are names; \<open>IndexError\<close> without levels), and
  \<open>self.tree[1]\<close> the second level (\<open>IndexError\<close> when the tree has one).
\<close>

function ExperimentSection_init ::
  "order_method option \<Rightarrow> chain_map \<Rightarrow> dict \<Rightarrow> cursor \<Rightarrow> error + experiment_section" where
  "ExperimentSection_init order_attr parents context_own t =
     (case t of
        Branches b \<Rightarrow> Inl KeyError
      | Tree dt \<Rightarrow>
          (case levels_and_designs dt of
             [] \<Rightarrow> Inl IndexError
           | l0 # rest \<Rightarrow>
               if DesignTree_len dt = 1
               then Inr (ExperimentSection context_own t (level_name l0) True [] False False
                           None None)
               else (case rest of
                       [] \<Rightarrow> Inl IndexError
                     | l1 # rest' \<Rightarrow>
                         append_designs order_attr
                           (\<lambda>p d c. ExperimentSection_init order_attr p d c) parents
                           (ExperimentSection context_own t (level_name l0) False [] False False
                              (Some (level_name l1)) (Some (level_design l1)))
                           (level_design l1))))"
  by pat_completeness auto
termination
  by (relation "measure (\<lambda>(order_attr, parents, context_own, t). levels_left t)")
    (auto dest!: py_next_levels_left simp: levels_left_def)

declare ExperimentSection_init.simps [simp del]

text \<open>
  \<open>generate_data()\<close>, a generator, as the list of the contexts it yields; \<open>parents\<close> are
  the maps of the section's context after its own.
\<close>

fun generate_data :: "chain_map \<Rightarrow> experiment_section \<Rightarrow> chain_map list" where
  "generate_data parents (ExperimentSection context_own t lv bottom cs started finished nl nd) =
     concat (map (\<lambda>child. if is_bottom_level child then [own child # context_own # parents]
                          else generate_data (context_own # parents) child) cs)"

text \<open>
  The sections strictly below a section, each with its context, depth first and from left
  to right, as the specification words the order of \<open>generate_data\<close>.
\<close>

fun descendants :: "chain_map \<Rightarrow> experiment_section \<Rightarrow> (chain_map \<times> experiment_section) list" where
  "descendants parents (ExperimentSection context_own t lv bottom cs started finished nl nd) =
     concat (map (\<lambda>child. (own child # context_own # parents, child)
                            # descendants (context_own # parents) child) cs)"

text \<open>
  The invariant of the sections the class builds: a section at the bottom level has no
  children, at any depth.
\<close>

fun bottom_childless :: "experiment_section \<Rightarrow> bool" where
  "bottom_childless (ExperimentSection context_own t lv bottom cs started finished nl nd) =
     ((bottom \<longrightarrow> cs = []) \<and> list_all bottom_childless cs)"

text \<open>
  An object whose method \<open>order(**kwargs)\<close> is \<open>get_order\<close> of the context given as
  keyword arguments, for evaluating the construction of sections with children.
\<close>

definition order_by_get_order :: order_method where
  "order_by_get_order design kwargs = Inr (fst (get_order design (Some [kwargs])))"

text \<open>
  What a method that adds children keeps of a section: the invariant of its children,
  its \<open>is_bottom_level\<close> and its tree.
\<close>

definition kept :: "experiment_section \<Rightarrow> experiment_section \<Rightarrow> bool" where
  "kept self self' \<longleftrightarrow>
     (list_all bottom_childless (children self) \<longrightarrow> list_all bottom_childless (children self'))
     \<and> is_bottom_level self' = is_bottom_level self \<and> tree self' = tree self"

text \<open>
  A tree of three levels as the constructor builds it from
  \<open>[(participant, Design()), (session, Design()), (block, [non-atomic design, Design()])]\<close>:
  the non-atomic ordering of the first block design installs the IV \<open>order\<close> on the
  session design.
\<close>

definition design_order_iv :: design where
  "design_order_iv =
     \<lparr> iv_names = [''order''], iv_values = [Some [VInt 0, VInt 1]],
       design_matrix = None, extra_data = [],
       ordering = atomic_ordering [[(''order'', VInt 0)], [(''order'', VInt 1)]] \<rparr>"

definition design_side :: design where
  "design_side =
     design_non_atomic \<lparr> ordering := non_atomic_ordering ''order'' [VInt 0, VInt 1]
        [[(''side'', VStr ''left'')], [(''side'', VStr ''right'')]] \<rparr>"

definition tree_three_levels :: design_tree where
  "tree_three_levels =
     DesignTree [Level ''participant'' [design_plain], Level ''session'' [design_order_iv],
                 Level ''block'' [design_side, design_plain]] [] []"

text \<open>
  A call of \<open>generate_data\<close> in state-passing form: the state is the section with the
  other maps of its context; the generator reads it and assigns nothing.
\<close>

definition generate_data_call ::
  "chain_map \<times> experiment_section \<Rightarrow> chain_map list \<times> (chain_map \<times> experiment_section)" where
  "generate_data_call st = (generate_data (fst st) (snd st), st)"

text \<open>
  The children as \<open>number_children\<close> leaves them: each with its position, from 1, under
  the name of the next level.
\<close>

definition renumbered :: "string \<Rightarrow> experiment_section list \<Rightarrow> experiment_section list" where
  "renumbered nl cs =
     map (\<lambda>(i, child). set_own (AList.update nl (VInt (int i + 1)) (own child)) child)
       (enumerate 0 cs)"

text \<open>Two sections that differ at most in the value their own map gives a key.\<close>

definition same_but :: "string \<Rightarrow> experiment_section \<Rightarrow> experiment_section \<Rightarrow> bool" where
  "same_but nl a b \<longleftrightarrow>
     (\<forall>v. set_own (AList.update nl v (own a)) a = set_own (AList.update nl v (own b)) b)"

text \<open>
  The generator step by step.  A running \<open>generate_data\<close> is a stack of frames, one per
  nested \<open>yield from\<close>: the context of the section whose loop the frame runs and the
  children the loop has still to visit.  \<open>generate_data_start\<close> is the call, and
  \<open>generator_next\<close> one \<open>next\<close> on the generator: it runs to the next \<open>yield\<close>, giving the
  context yielded and the generator after it, or ends (\<open>None\<close> for \<open>StopIteration\<close>).
\<close>

type_synonym frame = "chain_map \<times> experiment_section list"

fun weight :: "experiment_section \<Rightarrow> nat" where
  "weight (ExperimentSection context_own t lv bottom cs started finished nl nd) =
     2 + sum_list (map weight cs)"

definition frames_weight :: "frame list \<Rightarrow> nat" where
  "frames_weight frames = sum_list (map (\<lambda>(ctx, cs). 1 + sum_list (map weight cs)) frames)"

lemma weight_children: "weight child = 2 + sum_list (map weight (children child))"
  by (cases child) simp

definition generate_data_start :: "chain_map \<Rightarrow> experiment_section \<Rightarrow> frame list" where
  "generate_data_start parents self = [(own self # parents, children self)]"

function generator_next :: "frame list \<Rightarrow> (chain_map \<times> frame list) option" where
  "generator_next [] = None"
| "generator_next ((ctx, []) # frames) = generator_next frames"
| "generator_next ((ctx, child # rest) # frames) =
     (if is_bottom_level child then Some (own child # ctx, (ctx, rest) # frames)
      else generator_next ((own child # ctx, children child) # (ctx, rest) # frames))"
  by pat_completeness auto
termination
  by (relation "measure frames_weight") (auto simp: frames_weight_def weight_children)

lemma generator_next_weight:
  "generator_next frames = Some (c, frames') \<Longrightarrow> frames_weight frames' < frames_weight frames"
  by (induction frames arbitrary: c frames' rule: generator_next.induct)
    (fastforce simp: frames_weight_def weight_children split: if_splits)+

text \<open>All that the generator yields until it ends.\<close>

function generator_drain :: "frame list \<Rightarrow> chain_map list" where
  "generator_drain frames =
     (case generator_next frames of
        None \<Rightarrow> []
      | Some (c, frames') \<Rightarrow> c # generator_drain frames')"
  by pat_completeness auto
termination
  by (relation "measure frames_weight") (auto simp: generator_next_weight)

declare generator_drain.simps [simp del]

text \<open>What a frame has still to yield: the rest of the loop of \<open>generate_data\<close>.\<close>

fun yields :: "frame \<Rightarrow> chain_map list" where
  "yields (ctx, cs) =
     concat (map (\<lambda>child. if is_bottom_level child then [own child # ctx]
                          else generate_data ctx child) cs)"

section \<open>Properties of the factorial cross\<close>

lemma append_single: "(@) [x] = (#) x"
  by (rule ext) simp









section \<open>Properties of dictionaries\<close>

lemma map_of_dict_update: "map_of (dict_update d e) = map_of d ++ map_of (rev e)"
  unfolding dict_update_def
proof (induction e arbitrary: d)
  case Nil
  show ?case by simp
next
  case (Cons p e)
  obtain k v where p: "p = (k, v)" by (cases p)
  have "map_of (AList.update k v d) = (map_of d)(k \<mapsto> v)"
    by (rule ext) (simp add: update_conv)
  then show ?case
    by (simp add: p Cons.IH map_of_append map_add_upd_left fun_upd_def [symmetric]
        map_add_assoc [symmetric] del: fun_upd_apply)
qed

lemma map_of_rev_distinct: "distinct (map fst e) \<Longrightarrow> map_of (rev e) = map_of e"
  by (rule map_of_inject_set [THEN iffD2]) (simp_all add: distinct_rev rev_map [symmetric])

lemma dict_update_lookup:
  "distinct (map fst e) \<Longrightarrow>
   map_of (dict_update d e) k = (case map_of e k of Some v \<Rightarrow> Some v | None \<Rightarrow> map_of d k)"
  by (simp add: map_of_dict_update map_of_rev_distinct map_add_def)

section \<open>Properties of Design.get-order\<close>

text \<open>
  C7.  \<open>get_order\<close> returns the sequence of the ordering's \<open>get_order\<close>, in its order and
  of its length, each condition updated with the design's extra data: a key of the extra
  data has the extra data's value in the result (also when the condition holds an IV of
  that name), every other key has the condition's.  The extra data is a dict: its keys
  are distinct.
\<close>

theorem get_order_extra_data_precedence:
  assumes "distinct (map fst (extra_data self))"
  shows "fst (get_order self data) =
           map (\<lambda>condition. dict_update condition (extra_data self))
             (get_order_result (ordering self) data)
       \<and> length (fst (get_order self data)) = length (get_order_result (ordering self) data)
       \<and> (\<forall>i < length (get_order_result (ordering self) data). \<forall>k.
             map_of (fst (get_order self data) ! i) k =
               (case map_of (extra_data self) k of
                  Some v \<Rightarrow> Some v
                | None \<Rightarrow> map_of (get_order_result (ordering self) data ! i) k))"
  using assms by (simp add: get_order_def Let_def dict_update_lookup)

theorem get_order_extra_data_precedence_witness:
  "distinct (map fst [(''side'', VStr ''both''), (''note'', VInt 7)])
   \<and> fst (get_order
        \<lparr> iv_names = [''side''], iv_values = [Some [VStr ''left'', VStr ''right'']],
          design_matrix = None, extra_data = [(''side'', VStr ''both''), (''note'', VInt 7)],
          ordering = atomic_ordering [[(''side'', VStr ''left'')], [(''side'', VStr ''right'')]] \<rparr>
        None) =
       [[(''side'', VStr ''both''), (''note'', VInt 7)],
        [(''side'', VStr ''both''), (''note'', VInt 7)]]"
  using get_order_extra_data_precedence
    [of "\<lparr> iv_names = [''side''], iv_values = [Some [VStr ''left'', VStr ''right'']],
          design_matrix = None, extra_data = [(''side'', VStr ''both''), (''note'', VInt 7)],
          ordering = atomic_ordering [[(''side'', VStr ''left'')], [(''side'', VStr ''right'')]] \<rparr>"
        None]
  by (simp add: dict_update_def)

section \<open>Properties of the design matrix decoding\<close>





lemma np_unique_props:
  "set (np_unique col) = set col" "length (np_unique col) = card (set col)"
  "distinct (np_unique col)"
  by (simp_all add: np_unique_def length_remdups_card_conv)




lemma column_nth: "column dm c = map (\<lambda>j. dm ! j ! c) [0..<length dm]"
  unfolding column_def by (rule nth_equalityI) simp_all

lemma rectangular_rows:
  assumes "\<And>row. row \<in> set dm \<Longrightarrow> length row = n"
  shows "rectangular dm"
  using assms by (cases dm) (auto simp: rectangular_def list_all_iff)

lemma values_per_factor_rect:
  assumes "dm \<noteq> []" and "\<And>row. row \<in> set dm \<Longrightarrow> length row = n"
  shows "values_per_factor dm = Inr (map (\<lambda>c. np_unique (column dm c)) [0..<n])"
proof -
  have "transpose dm = map (\<lambda>i. map (\<lambda>j. dm ! j ! i) [0..<length dm]) [0..<n]"
    by (rule transpose_rectangle) (use assms in auto)
  then show ?thesis
    using rectangular_rows [of dm n] assms(2)
    by (simp add: values_per_factor_def column_nth comp_def)
qed







section \<open>Properties of the peel operation\<close>

lemma DesignTree_len_eq:
  "DesignTree_len t =
     length (levels_and_designs t) +
     (case tree_branches t of [] \<Rightarrow> 0 | (branch_name, branch) # rest \<Rightarrow> DesignTree_len branch)"
proof (cases t)
  case (DesignTree levels others brs)
  then show ?thesis by (cases brs) auto
qed

text \<open>
  C4, as stated.  The claim lets the branch map come out only on logical length 2.  On
  \<open>tree_het\<close>, of logical length 3 with its single level heterogeneous, \<open>__next__\<close> returns
  the branch map, where the claim's last case promises a tree without its first level.
\<close>

theorem DesignTree_next_length_three_counterexample:
  "DesignTree_len tree_het = 3
   \<and> is_heterogeneous (hd (level_design (hd (levels_and_designs tree_het))))
   \<and> DesignTree_next tree_het = Inr (Branches [(''a'', tree_two_levels)])
   \<and> peel_spec tree_het = Inr (Tree (DesignTree [] [(''a'', Built tree_two_levels)]
                                      [(''a'', tree_two_levels)]))
   \<and> DesignTree_next tree_het \<noteq> peel_spec tree_het"
  by (simp add: DesignTree_next_def peel_spec_def tree_het_def tree_two_levels_def
      is_heterogeneous_def heterogeneous_design_iv_name_def design_het_def)

text \<open>
  C4, amended.  With \<open>L\<close> the logical length: if \<open>L = 1\<close> the peel fails
  (\<open>StopIteration\<close>); if \<open>L \<noteq> 1\<close> and the tree has exactly one level, then its branch map is
  not empty and the peel yields that map, whatever \<open>L\<close> is; otherwise the peel yields a
  tree with the first level dropped, its other attributes and its branch map unchanged.
  \<open>L\<close> is the number of levels plus, when the branch map is not empty, the logical
  length of its first branch.
\<close>

theorem DesignTree_next_cases:
  "(DesignTree_len t = 1 \<longrightarrow> DesignTree_next t = Inl StopIteration)
   \<and> (DesignTree_len t \<noteq> 1 \<and> length (levels_and_designs t) = 1 \<longrightarrow>
        tree_branches t \<noteq> [] \<and> DesignTree_next t = Inr (Branches (tree_branches t)))
   \<and> (DesignTree_len t \<noteq> 1 \<and> length (levels_and_designs t) \<noteq> 1 \<longrightarrow>
        (\<exists>t'. DesignTree_next t = Inr (Tree t')
            \<and> levels_and_designs t' = drop 1 (levels_and_designs t)
            \<and> other_designs t' = other_designs t
            \<and> tree_branches t' = tree_branches t))
   \<and> DesignTree_len t =
        length (levels_and_designs t) +
        (case tree_branches t of [] \<Rightarrow> 0
         | (branch_name, branch) # rest \<Rightarrow> DesignTree_len branch)"
proof -
  have "tree_branches t \<noteq> []"
    if "DesignTree_len t \<noteq> 1" "length (levels_and_designs t) = 1"
    using that DesignTree_len_eq [of t] by (cases "tree_branches t") auto
  then show ?thesis
    using DesignTree_len_eq [of t] by (simp add: DesignTree_next_def)
qed

theorem DesignTree_next_cases_witness:
  "DesignTree_len tree_two_levels = 2
   \<and> DesignTree_next tree_two_levels =
       Inr (Tree (DesignTree [Level ''sub'' [design_plain]] [] []))
   \<and> DesignTree_next (DesignTree [Level ''sub'' [design_plain]] [] []) = Inl StopIteration
   \<and> tree_branches tree_het \<noteq> []
   \<and> DesignTree_next tree_het = Inr (Branches (tree_branches tree_het))"
  using DesignTree_next_cases [of tree_two_levels]
    DesignTree_next_cases [of "DesignTree [Level ''sub'' [design_plain]] [] []"]
    DesignTree_next_cases [of tree_het]
  by (simp add: tree_het_def tree_two_levels_def DesignTree_next_def)

section \<open>Properties of the construction failures\<close>

lemma Design_init_continuous:
  "None \<in> snd ` set ivs \<Longrightarrow> Design_init order ivs None ord_arg extra = Inl TypeError"
  by (auto simp: Design_init_def Let_def list_ex_iff)

lemma Design_first_pass_columns:
  "design_matrix self = Some dm \<Longrightarrow> np_shape_1 dm = Inr n \<Longrightarrow> n \<noteq> length (iv_names self) \<Longrightarrow>
   Design_first_pass np_array self = Inl TypeError"
  by (simp add: Design_first_pass_def)

lemma parse_design_matrix_mismatch:
  assumes ne: "dm \<noteq> []" and rect: "list_all (\<lambda>row. length row = n) dm"
    and c: "c < n" "c < length (iv_values self)"
    and t: "truthy_values (iv_values self ! c)"
    and m: "length (the (iv_values self ! c)) \<noteq> card (set (column dm c))"
  shows "parse_design_matrix np_array self dm = Inl ValueError"
proof -
  let ?vpf = "map (\<lambda>c. np_unique (column dm c)) [0..<n]"
  have vpf: "values_per_factor dm = Inr ?vpf"
    using ne rect by (intro values_per_factor_rect) (auto simp: list_all_iff)
  have "(iv_values self ! c, ?vpf ! c) \<in> set (zip (iv_values self) ?vpf)"
    using c by (auto simp: in_set_zip)
  then have "list_ex (\<lambda>(ivv, vals). truthy_values ivv \<and> length (the ivv) \<noteq> length vals)
                  (zip (iv_values self) ?vpf)"
    unfolding list_ex_iff using t m c by (auto simp: np_unique_props intro!: bexI)
  then show ?thesis by (simp add: parse_design_matrix_def vpf)
qed

lemma DesignTree_init_top_level_iv:
  assumes "bottom_level_design (initial_levels lad) = Inr bottom"
    and "\<not> is_heterogeneous bottom"
    and "DesignTree_first_pass np_array (initial_levels lad) = Inr ((Some name, vals), levels)"
    and "name \<noteq> []"
  shows "DesignTree_init np_array lad others = Inl ValueError"
  using assms by (simp add: DesignTree_init.simps truthy_name_def)

text \<open>
  C5, as stated.  The failures do not share one exception class: a continuous IV without
  a design matrix raises \<open>TypeError\<close> in the \<open>Design\<close> constructor, and a column with
  three distinct codes for an IV of two values raises \<open>ValueError\<close> in the first pass.
\<close>

theorem construction_failures_two_classes_counterexample:
  "Design_init example_order [(''speed'', None)] None None None = Inl TypeError
   \<and> Design_first_pass np_array_example design_mismatch = Inl ValueError
   \<and> TypeError \<noteq> ValueError"
  by (simp add: Design_init_def Design_first_pass_def design_mismatch_def np_shape_1_def
      parse_design_matrix_def values_per_factor_def rectangular_def np_unique_def
      truthy_values_def)

text \<open>
  C5, amended.  Each of the four failures raises a built-in exception, of two classes.
  \<^item> The \<open>Design\<close> constructor raises \<open>TypeError\<close> when no design matrix is given and the
    values of some IV are \<open>None\<close>.
  \<^item> \<open>Design.first_pass\<close> raises \<open>TypeError\<close> when the design matrix has a number of
    columns (it has a row, and its rows have one length) that is not the number of IVs.
  \<^item> The decoding, and with it \<open>Design.first_pass\<close> on a matrix with one column per IV,
    raises \<open>ValueError\<close> when the matrix has a row, its rows have one length, and a column
    has a number of distinct codes other than the number of values of the non-empty
    list its IV declares.
  \<^item> The \<open>DesignTree\<close> constructor raises \<open>ValueError\<close> when the first pass over its levels
    returns a synthetic IV with a non-empty name at the top (the branch map having been
    built, if the tree is heterogeneous).
\<close>

theorem construction_failures_TypeError_ValueError:
  "(None \<in> snd ` set ivs \<longrightarrow> Design_init order ivs None ord_arg extra = Inl TypeError)
   \<and> (design_matrix self = Some dm \<and> np_shape_1 dm = Inr n \<and> n \<noteq> length (iv_names self) \<longrightarrow>
        Design_first_pass np_array self = Inl TypeError)
   \<and> (dm \<noteq> [] \<and> list_all (\<lambda>row. length row = n) dm \<and> c < n \<and> c < length (iv_values self)
        \<and> truthy_values (iv_values self ! c)
        \<and> length (the (iv_values self ! c)) \<noteq> card (set (column dm c)) \<longrightarrow>
        parse_design_matrix np_array self dm = Inl ValueError
        \<and> (design_matrix self = Some dm \<and> length (iv_names self) = n \<longrightarrow>
             Design_first_pass np_array self = Inl ValueError))
   \<and> (bottom_level_design (initial_levels lad) = Inr bottom
        \<and> (is_heterogeneous bottom \<longrightarrow>
             (\<exists>names brs. Design_branches bottom = Some names
                \<and> build_branches np_array others names (initial_branches others names) = Inr brs))
        \<and> DesignTree_first_pass np_array (initial_levels lad) = Inr ((Some name, vals), levels)
        \<and> name \<noteq> [] \<longrightarrow>
        DesignTree_init np_array lad others = Inl ValueError)"
proof (intro conjI impI)
  assume "None \<in> snd ` set ivs"
  then show "Design_init order ivs None ord_arg extra = Inl TypeError"
    by (rule Design_init_continuous)
next
  assume "design_matrix self = Some dm \<and> np_shape_1 dm = Inr n \<and> n \<noteq> length (iv_names self)"
  then show "Design_first_pass np_array self = Inl TypeError"
    using Design_first_pass_columns by blast
next
  assume a: "dm \<noteq> [] \<and> list_all (\<lambda>row. length row = n) dm \<and> c < n \<and> c < length (iv_values self)
        \<and> truthy_values (iv_values self ! c)
        \<and> length (the (iv_values self ! c)) \<noteq> card (set (column dm c))"
  then show p: "parse_design_matrix np_array self dm = Inl ValueError"
    using parse_design_matrix_mismatch [of dm n c self np_array] by blast
  assume b: "design_matrix self = Some dm \<and> length (iv_names self) = n"
  have "np_shape_1 dm = Inr n"
    using a by (cases dm) (auto simp: np_shape_1_def list_all_iff)
  then show "Design_first_pass np_array self = Inl ValueError"
    using b p by (simp add: Design_first_pass_def)
next
  assume a: "bottom_level_design (initial_levels lad) = Inr bottom
        \<and> (is_heterogeneous bottom \<longrightarrow>
             (\<exists>names brs. Design_branches bottom = Some names
                \<and> build_branches np_array others names (initial_branches others names) = Inr brs))
        \<and> DesignTree_first_pass np_array (initial_levels lad) = Inr ((Some name, vals), levels)
        \<and> name \<noteq> []"
  show "DesignTree_init np_array lad others = Inl ValueError"
  proof (cases "is_heterogeneous bottom")
    case False
    then show ?thesis using a DesignTree_init_top_level_iv by blast
  next
    case True
    then obtain names brs where "Design_branches bottom = Some names"
      "build_branches np_array others names (initial_branches others names) = Inr brs"
      using a by blast
    then show ?thesis
      using a True by (simp add: DesignTree_init.simps truthy_name_def)
  qed
qed

theorem construction_failures_TypeError_ValueError_witness:
  "Design_init example_order [(''side'', Some [VStr ''left'']), (''speed'', None)] None None None =
     Inl TypeError
   \<and> Design_first_pass np_array_example (design_mismatch \<lparr> iv_names := [''side'', ''speed''] \<rparr>) = Inl TypeError
   \<and> parse_design_matrix np_array_example design_mismatch [[0], [1], [2]] = Inl ValueError
   \<and> Design_first_pass np_array_example design_mismatch = Inl ValueError
   \<and> DesignTree_init np_array_example (Raw [(''block'', One design_non_atomic)]) [] = Inl ValueError"
proof -
  have fp: "DesignTree_first_pass np_array_example (initial_levels (Raw [(''block'', One design_non_atomic)])) =
      Inr ((Some ''order'', [VInt 0, VInt 1]),
           [Level ''block'' [design_non_atomic \<lparr> ordering :=
              non_atomic_ordering ''order'' [VInt 0, VInt 1]
                [[(''side'', VStr ''left'')], [(''side'', VStr ''right'')]] \<rparr>]])"
    by (simp add: initial_levels_def normalize_level_def DesignTree_first_pass_def
        Design_first_pass_def design_non_atomic_def full_cross_def itertools_product_def
        dict_of_def dict_update_def)
  have bl: "bottom_level_design (initial_levels (Raw [(''block'', One design_non_atomic)])) =
      Inr design_non_atomic"
    by (simp add: initial_levels_def normalize_level_def bottom_level_design_def)
  have nh: "\<not> is_heterogeneous design_non_atomic"
    by (simp add: is_heterogeneous_def heterogeneous_design_iv_name_def design_non_atomic_def)
  have card3: "card (set (column [[0], [1], [2]] 0)) = 3"
    by (simp add: column_def)
  show ?thesis
    using construction_failures_TypeError_ValueError
      [of "[(''side'', Some [VStr ''left'']), (''speed'', None)]" example_order None None
          "design_mismatch \<lparr> iv_names := [''side'', ''speed''] \<rparr>" "[[0], [1], [2]]" 1
          np_array_example 0 "Raw [(''block'', One design_non_atomic)]" design_non_atomic "[]"
          "''order''" "[VInt 0, VInt 1]"
          "[Level ''block'' [design_non_atomic \<lparr> ordering :=
              non_atomic_ordering ''order'' [VInt 0, VInt 1]
                [[(''side'', VStr ''left'')], [(''side'', VStr ''right'')]] \<rparr>]]"]
      construction_failures_TypeError_ValueError
      [of "[]" example_order None None design_mismatch "[[0], [1], [2]]" 1
          np_array_example 0 "Raw [(''block'', One design_non_atomic)]" design_non_atomic "[]"
          "''order''" "[VInt 0, VInt 1]"
          "[Level ''block'' [design_non_atomic \<lparr> ordering :=
              non_atomic_ordering ''order'' [VInt 0, VInt 1]
                [[(''side'', VStr ''left'')], [(''side'', VStr ''right'')]] \<rparr>]]"]
      fp bl nh card3
    by (simp add: design_mismatch_def np_shape_1_def truthy_values_def)
qed

section \<open>Evaluations of the DesignTree constructor\<close>

lemmas DesignTree_init_eval =
  DesignTree_init.simps initial_levels_def normalize_level_def bottom_level_design_def
  design_non_atomic_def design_fresh_def design_plain_def design_het_fresh_def design_het_def
  is_heterogeneous_def heterogeneous_design_iv_name_def DesignTree_first_pass_def
  Design_first_pass_def full_cross_def truthy_name_def itertools_product_def
  dict_of_def dict_update_def Design_update_def Design_branches_def initial_branches_def
  value_eq_alternate_def tree_trial_def tree_het_def tree_two_levels_def AList.delete_eq

lemma tree_trial_constructed:
  "DesignTree_init np_array (Raw [(''trial'', One design_fresh)]) [] = Inr tree_trial"
  by (simp add: DesignTree_init_eval)

lemma tree_two_levels_constructed:
  "DesignTree_init np_array (Raw [(''trial'', One design_fresh), (''sub'', One design_fresh)]) [] =
   Inr tree_two_levels"
  by (simp add: DesignTree_init_eval)

text \<open>
  \<open>tree_het\<close>, the tree of logical length 3 with a single level, is what the constructor
  returns for a heterogeneous level and the named alternate \<open>a\<close>.
\<close>

lemma tree_het_constructed:
  "DesignTree_init np_array (Raw [(''block'', One design_het_fresh)]) [(''a'', Built tree_two_levels)] =
   Inr tree_het"
  by (simp add: DesignTree_init_eval)

text \<open>
  C2.  The loop over the top level keeps the result of its last design only.  With a
  non-atomic design followed by an atomic one at the top, the construction succeeds and
  the synthetic IV is dropped; in the other order it raises \<open>ValueError\<close>.  One level
  down the same two designs succeed, and the synthetic IV \<open>order\<close> is installed on the
  design of the level above before its first pass: it is an IV of that design, and a key
  of every condition its ordering receives.
\<close>

theorem DesignTree_init_non_atomic_first_at_top:
  "DesignTree_init np_array (Raw [(''block'', Many [design_non_atomic, design_fresh])]) [] =
     Inr (DesignTree
           [Level ''block''
              [design_non_atomic \<lparr> ordering := non_atomic_ordering ''order'' [VInt 0, VInt 1]
                  [[(''side'', VStr ''left'')], [(''side'', VStr ''right'')]] \<rparr>,
               design_plain]] [] [])
   \<and> DesignTree_init np_array (Raw [(''block'', Many [design_fresh, design_non_atomic])]) [] =
       Inl ValueError
   \<and> DesignTree_init np_array (Raw [(''session'', One design_fresh),
                           (''block'', Many [design_non_atomic, design_fresh])]) [] =
       Inr (DesignTree
             [Level ''session''
                [\<lparr> iv_names = [''order''], iv_values = [Some [VInt 0, VInt 1]],
                   design_matrix = None, extra_data = [],
                   ordering = atomic_ordering [[(''order'', VInt 0)], [(''order'', VInt 1)]] \<rparr>],
              Level ''block''
                [design_non_atomic \<lparr> ordering := non_atomic_ordering ''order'' [VInt 0, VInt 1]
                    [[(''side'', VStr ''left'')], [(''side'', VStr ''right'')]] \<rparr>,
                 design_plain]] [] [])"
  by (simp add: DesignTree_init_eval)

text \<open>
  C3.  The named alternate \<open>a\<close> is given as the already constructed \<open>tree_trial\<close>.  The
  branch map does not hold that tree: the comprehension that should keep it tests the
  alternate, not its name, against the branch names, so the loop builds the branch anew
  from the tree's levels, with the other named alternates as its \<open>other_designs\<close>.
  When the given tree is itself heterogeneous, as \<open>tree_het\<close> with its own alternate
  \<open>a\<close>, building it anew without that alternate raises \<open>KeyError\<close>.
\<close>

theorem DesignTree_init_prebuilt_branch_rebuilt:
  "DesignTree_init np_array (Raw [(''block'', One design_het_fresh)])
       [(''a'', Built tree_trial), (''b'', Raw [(''trial'', One design_fresh)])] =
     Inr (DesignTree
           [Level ''block'' [design_het]]
           [(''a'', Built tree_trial), (''b'', Raw [(''trial'', One design_fresh)])]
           [(''a'', DesignTree [Level ''trial'' [design_plain]]
                     [(''b'', Raw [(''trial'', One design_fresh)])] [])])
   \<and> DesignTree [Level ''trial'' [design_plain]]
         [(''b'', Raw [(''trial'', One design_fresh)])] [] \<noteq> tree_trial
   \<and> DesignTree_init np_array (Raw [(''session'', One design_het_fresh)]) [(''a'', Built tree_het)] =
       Inl KeyError"
  by (simp add: DesignTree_init_eval)

section \<open>Properties of the sections\<close>

lemma descendants_childless: "children s = [] \<Longrightarrow> descendants parents s = []"
  by (cases s) simp

lemma generate_data_childless: "children s = [] \<Longrightarrow> generate_data parents s = []"
  by (cases s) simp

lemma bottom_childless_children:
  "bottom_childless s \<Longrightarrow> child \<in> set (children s) \<Longrightarrow> bottom_childless child"
  by (cases s) (simp add: list_all_iff)

lemma bottom_childless_bottom: "bottom_childless s \<Longrightarrow> is_bottom_level s \<Longrightarrow> children s = []"
  by (cases s) simp

lemma generate_data_descendants:
  "bottom_childless s \<Longrightarrow>
   generate_data parents s =
     map fst (filter (\<lambda>(c, d). is_bottom_level d) (descendants parents s))"
proof (induction parents s rule: generate_data.induct)
  case (1 parents context_own t lv bottom cs started finished nl nd)
  let ?ctx = "context_own # parents"
  have each: "(if is_bottom_level child then [own child # ?ctx] else generate_data ?ctx child) =
      map fst (filter (\<lambda>(c, d). is_bottom_level d)
                 ((own child # ?ctx, child) # descendants ?ctx child))"
    if mem: "child \<in> set cs" for child
  proof (cases "is_bottom_level child")
    case True
    have "bottom_childless child" using "1.prems" mem by (simp add: list_all_iff)
    then have "children child = []" using True by (rule bottom_childless_bottom)
    then show ?thesis using True by (simp add: descendants_childless)
  next
    case False
    have "bottom_childless child" using "1.prems" mem by (simp add: list_all_iff)
    then show ?thesis using "1.IH" [OF mem False] False by simp
  qed
  show ?case
    by (simp add: map_concat filter_concat comp_def each cong: map_cong)
qed

lemma generate_data_longer:
  "c \<in> set (generate_data parents s) \<Longrightarrow> length parents + 2 \<le> length c"
proof (induction parents s arbitrary: c rule: generate_data.induct)
  case (1 parents context_own t lv bottom cs started finished nl nd)
  from "1.prems" obtain child where mem: "child \<in> set cs"
    and c: "c \<in> set (if is_bottom_level child then [own child # context_own # parents]
                       else generate_data (context_own # parents) child)"
    by auto
  show ?case
  proof (cases "is_bottom_level child")
    case True
    then show ?thesis using c by simp
  next
    case False
    then have "length (context_own # parents) + 2 \<le> length c"
      using "1.IH" [OF mem False] c by simp
    then show ?thesis by simp
  qed
qed

lemma ExperimentSection_init_bottom:
  assumes "ExperimentSection_init oa parents context_own (Tree dt) = Inr s"
    and "DesignTree_len dt = 1"
  shows "s = ExperimentSection context_own (Tree dt) (level_name (hd (levels_and_designs dt)))
               True [] False False None None"
  using assms(1) [unfolded ExperimentSection_init.simps [of oa parents context_own "Tree dt"]] assms(2)
  by (auto split: list.splits)


lemma bottom_childless_set_own [simp]: "bottom_childless (set_own d s) = bottom_childless s"
  by (cases s) (simp add: set_own_def)

lemma is_bottom_level_set_children [simp]:
  "is_bottom_level (set_children cs self) = is_bottom_level self"
  by (simp add: set_children_def)

lemma children_set_children [simp]: "children (set_children cs self) = cs"
  by (simp add: set_children_def)

lemma is_bottom_level_number_children [simp]:
  "is_bottom_level (number_children self) = is_bottom_level self"
  by (simp add: number_children_def)

lemma children_number_children_all:
  "list_all bottom_childless (children (number_children self)) =
   list_all bottom_childless (children self)"
  by (auto simp: number_children_def list_all_length nth_enumerate_eq)

lemma kept_refl: "kept s s"
  by (simp add: kept_def)

lemma kept_trans: "kept a b \<Longrightarrow> kept b c \<Longrightarrow> kept a c"
  by (simp add: kept_def)

lemma append_child_kept:
  assumes "\<And>p d c s. py_next (tree self) = Inr c \<Longrightarrow> mk p d c = Inr s \<Longrightarrow> bottom_childless s"
    and "append_child mk parents self to_start kw = Inr self'"
  shows "kept self self'"
proof -
  from assms(2) obtain c child where n: "py_next (tree self) = Inr c"
    and m: "mk (own self # parents) (dict_update [] kw) c = Inr child"
    and r: "self' = number_children (set_children
              (if to_start then child # children self else children self @ [child]) self)"
    by (auto simp: append_child_def split: sum.splits)
  have "bottom_childless child" using assms(1) n m .
  then show ?thesis
    unfolding r kept_def by (simp add: children_number_children_all)
qed

lemma call_append_child_kept:
  assumes "\<And>p d c s. py_next (tree self) = Inr c \<Longrightarrow> mk p d c = Inr s \<Longrightarrow> bottom_childless s"
    and "call_append_child mk parents self to_start kw = Inr self'"
  shows "kept self self'"
  using assms(2) append_child_kept [OF assms(1)]
  by (auto simp: call_append_child_def split: if_splits option.splits)

lemma append_children_kept:
  assumes "\<And>p d c s. py_next (tree self) = Inr c \<Longrightarrow> mk p d c = Inr s \<Longrightarrow> bottom_childless s"
    and "append_children mk parents self to_start cs = Inr self'"
  shows "kept self self'"
  using assms
proof (induction cs arbitrary: self)
  case Nil
  then show ?case by (simp add: kept_refl)
next
  case (Cons c cs)
  from Cons.prems(2) obtain s1 where s1: "call_append_child mk parents self to_start c = Inr s1"
    and r: "append_children mk parents s1 to_start cs = Inr self'"
    by (auto split: sum.splits)
  have k1: "kept self s1" using Cons.prems(1) s1 by (rule call_append_child_kept)
  then have "tree s1 = tree self" by (simp add: kept_def)
  then have "kept s1 self'" using Cons.prems(1) r by (intro Cons.IH) simp_all
  then show ?case using k1 kept_trans by blast
qed

lemma append_design_kept:
  assumes "\<And>p d c s. py_next (tree self) = Inr c \<Longrightarrow> mk p d c = Inr s \<Longrightarrow> bottom_childless s"
    and "append_design oa mk parents self design to_start = Inr self'"
  shows "kept self self'"
  using assms(2) append_children_kept [OF assms(1)]
  by (auto simp: append_design_def split: option.splits sum.splits if_splits)

lemma append_designs_kept:
  assumes "\<And>p d c s. py_next (tree self) = Inr c \<Longrightarrow> mk p d c = Inr s \<Longrightarrow> bottom_childless s"
    and "append_designs oa mk parents self ds = Inr self'"
  shows "kept self self'"
  using assms
proof (induction ds arbitrary: self)
  case Nil
  then show ?case by (simp add: kept_refl)
next
  case (Cons d ds)
  from Cons.prems(2) obtain s1 where s1: "append_design oa mk parents self d False = Inr s1"
    and r: "append_designs oa mk parents s1 ds = Inr self'"
    by (auto split: sum.splits)
  have k1: "kept self s1" using Cons.prems(1) s1 by (rule append_design_kept)
  then have "tree s1 = tree self" by (simp add: kept_def)
  then have "kept s1 self'" using Cons.prems(1) r by (intro Cons.IH) simp_all
  then show ?case using k1 kept_trans by blast
qed

lemma bottom_childless_iff:
  "bottom_childless s \<longleftrightarrow>
     (is_bottom_level s \<longrightarrow> children s = []) \<and> list_all bottom_childless (children s)"
  by (cases s) simp

lemma ExperimentSection_init_bottom_childless:
  "ExperimentSection_init oa parents context_own t = Inr s \<Longrightarrow> bottom_childless s"
proof (induction oa parents context_own t arbitrary: s rule: ExperimentSection_init.induct)
  case (1 oa parents context_own t)
  note p = "1.prems" [unfolded ExperimentSection_init.simps [of oa parents context_own t]]
  show ?case
  proof (cases t)
    case (Branches b)
    then show ?thesis using p by simp
  next
    case (Tree dt)
    show ?thesis
    proof (cases "levels_and_designs dt")
      case Nil
      then show ?thesis using "1.prems" Tree by (simp add: ExperimentSection_init.simps)
    next
      case (Cons l0 rest)
      show ?thesis
      proof (cases "DesignTree_len dt = 1")
        case True
        then show ?thesis using p Tree Cons by auto
      next
        case False
        then obtain l1 rest' where rest: "rest = l1 # rest'"
          using p Tree Cons by (cases rest) auto
        let ?self = "ExperimentSection context_own t (level_name l0) False [] False False
                              (Some (level_name l1)) (Some (level_design l1))"
        have r: "append_designs oa (\<lambda>p d c. ExperimentSection_init oa p d c) parents ?self
                   (level_design l1) = Inr s"
          using p Tree Cons False rest by simp
        have "kept ?self s"
        proof (rule append_designs_kept [OF _ r])
          fix p d c s'
          assume "py_next (tree ?self) = Inr c" "ExperimentSection_init oa p d c = Inr s'"
          then show "bottom_childless s'"
            using "1.IH" [OF Tree Cons False rest] by simp
        qed
        then show ?thesis
          by (simp add: kept_def bottom_childless_iff [of s])
      qed
    qed
  qed
qed

section \<open>Properties of generate-data and of the construction of sections\<close>

lemma tree_three_levels_constructed:
  "DesignTree_init np_array (Raw [(''participant'', One design_fresh), (''session'', One design_fresh),
                         (''block'', Many [design_non_atomic, design_fresh])]) [] =
   Inr tree_three_levels"
  by (simp add: DesignTree_init_eval tree_three_levels_def design_order_iv_def design_side_def
      numeral_2_eq_2)

lemmas ExperimentSection_eval = ExperimentSection_init.simps append_design_def call_append_child_def
  append_child_def py_next_def DesignTree_next_def number_children_def set_children_def
  set_own_def flatten_def dict_update_def order_by_get_order_def get_order_def
  tree_three_levels_def design_order_iv_def design_side_def design_non_atomic_def
  design_plain_def enumerate_eq_zip

lemma three_levels_data:
  "(case ExperimentSection_init (Some order_by_get_order) [] [] (Tree tree_three_levels) of
      Inl e \<Rightarrow> False
    | Inr s \<Rightarrow>
        generate_data [] s =
          [[[(''side'', VStr ''left''), (''block'', VInt 1)],
            [(''order'', VInt 0), (''session'', VInt 1)], []],
           [[(''side'', VStr ''right''), (''block'', VInt 2)],
            [(''order'', VInt 0), (''session'', VInt 1)], []],
           [[(''block'', VInt 3)], [(''order'', VInt 0), (''session'', VInt 1)], []],
           [[(''side'', VStr ''left''), (''block'', VInt 1)],
            [(''order'', VInt 1), (''session'', VInt 2)], []],
           [[(''side'', VStr ''right''), (''block'', VInt 2)],
            [(''order'', VInt 1), (''session'', VInt 2)], []],
           [[(''block'', VInt 3)], [(''order'', VInt 1), (''session'', VInt 2)], []]])"
  by (simp add: ExperimentSection_eval)


lemma generate_data_from_descendants:
  "c \<in> set (generate_data parents s) \<Longrightarrow>
   \<exists>d. (c, d) \<in> set (descendants parents s) \<and> is_bottom_level d"
proof (induction parents s arbitrary: c rule: generate_data.induct)
  case (1 parents context_own t lv bottom cs started finished nl nd)
  from "1.prems" obtain child where mem: "child \<in> set cs"
    and c: "c \<in> set (if is_bottom_level child then [own child # context_own # parents]
                       else generate_data (context_own # parents) child)"
    by auto
  show ?case
  proof (cases "is_bottom_level child")
    case True
    then have "(c, child) \<in> set (descendants parents
        (ExperimentSection context_own t lv bottom cs started finished nl nd))"
      using c mem by auto
    then show ?thesis using True by blast
  next
    case False
    then obtain d where "(c, d) \<in> set (descendants (context_own # parents) child)"
      "is_bottom_level d"
      using "1.IH" [OF mem False] c by auto
    then show ?thesis using mem by auto
  qed
qed

lemma append_design_bottom_childless:
  assumes "bottom_childless self" and "\<not> is_bottom_level self"
    and "append_design oa (\<lambda>p d c. ExperimentSection_init oa p d c) parents self design to_start
           = Inr self'"
  shows "bottom_childless self'"
proof -
  have "kept self self'"
    by (rule append_design_kept [OF _ assms(3)]) (rule ExperimentSection_init_bottom_childless)
  then show ?thesis
    using assms(1,2) by (simp add: kept_def bottom_childless_iff [of self] bottom_childless_iff [of self'])
qed

lemma append_child_bottom_childless:
  assumes "bottom_childless self" and "\<not> is_bottom_level self"
    and "append_child (\<lambda>p d c. ExperimentSection_init oa p d c) parents self to_start kw = Inr self'"
  shows "bottom_childless self'"
proof -
  have "kept self self'"
    by (rule append_child_kept [OF _ assms(3)]) (rule ExperimentSection_init_bottom_childless)
  then show ?thesis
    using assms(1,2) by (simp add: kept_def bottom_childless_iff [of self] bottom_childless_iff [of self'])
qed

lemma append_child_bottom_level_stops:
  assumes "ExperimentSection_init oa parents context_own t = Inr self" and "is_bottom_level self"
  shows "append_child new_section parents' self to_start kw = Inl StopIteration"
proof -
  note p = assms(1) [unfolded ExperimentSection_init.simps [of oa parents context_own t]]
  have k: "\<And>mk s0 ds s'. append_designs oa mk parents s0 ds = Inr s' \<Longrightarrow>
      is_bottom_level s' = is_bottom_level s0"
  proof -
    fix mk s0 ds s'
    assume "append_designs oa mk parents s0 ds = Inr s'"
    then show "is_bottom_level s' = is_bottom_level s0"
    proof (induction ds arbitrary: s0)
      case Nil
      then show ?case by simp
    next
      case (Cons d ds)
      from Cons.prems obtain s1 where s1: "append_design oa mk parents s0 d False = Inr s1"
        and r: "append_designs oa mk parents s1 ds = Inr s'"
        by (auto split: sum.splits)
      have "is_bottom_level s1 = is_bottom_level s0"
      proof -
        have "\<And>cs ts sa sb. append_children mk parents sa ts cs = Inr sb \<Longrightarrow>
            is_bottom_level sb = is_bottom_level sa"
        proof -
          fix cs ts sa sb
          assume "append_children mk parents sa ts cs = Inr sb"
          then show "is_bottom_level sb = is_bottom_level sa"
            by (induction cs arbitrary: sa)
              (auto simp: call_append_child_def append_child_def
                split: sum.splits if_splits option.splits)
        qed
        then show ?thesis
          using s1 by (auto simp: append_design_def split: option.splits sum.splits if_splits)
      qed
      then show ?case using Cons.IH [OF r] by simp
    qed
  qed
  from p assms(2) obtain dt where t: "t = Tree dt" and l: "DesignTree_len dt = 1"
    and self: "tree self = t"
    by (cases t) (auto split: list.splits if_splits dest!: k)
  show ?thesis
    by (simp add: append_child_def py_next_def self t DesignTree_next_def l)
qed

lemma add_data_bottom_childless: "bottom_childless (add_data s kw) = bottom_childless s"
  by (simp add: add_data_def)

lemma generate_data_yields:
  "generate_data parents s = yields (own s # parents, children s)"
  by (cases s) simp

lemma generator_drain_same_next:
  "generator_next a = generator_next b \<Longrightarrow> generator_drain a = generator_drain b"
  by (simp add: generator_drain.simps [of a] generator_drain.simps [of b])

lemma generator_drain_yields:
  "generator_drain frames = concat (map yields frames)"
proof (induction frames rule: measure_induct_rule [of frames_weight])
  case (less frames)
  show ?case
  proof (cases frames rule: generator_next.cases)
    case 1
    then show ?thesis by (simp add: generator_drain.simps)
  next
    case (2 ctx fs)
    have "frames_weight fs < frames_weight frames" using 2 by (simp add: frames_weight_def)
    then have "generator_drain fs = concat (map yields fs)" by (rule less.IH)
    moreover have "generator_drain frames = generator_drain fs"
      using 2 by (intro generator_drain_same_next) simp
    ultimately show ?thesis using 2 by simp
  next
    case (3 ctx child rest fs)
    show ?thesis
    proof (cases "is_bottom_level child")
      case True
      have "frames_weight ((ctx, rest) # fs) < frames_weight frames"
        using 3 by (simp add: frames_weight_def weight_children)
      then have "generator_drain ((ctx, rest) # fs) = concat (map yields ((ctx, rest) # fs))"
        by (rule less.IH)
      then show ?thesis
        using 3 True by (simp add: generator_drain.simps [of "(ctx, child # rest) # fs"])
    next
      case False
      let ?pushed = "(own child # ctx, children child) # (ctx, rest) # fs"
      have "frames_weight ?pushed < frames_weight frames"
        using 3 by (simp add: frames_weight_def weight_children [of child])
      then have "generator_drain ?pushed = concat (map yields ?pushed)" by (rule less.IH)
      moreover have "generator_drain frames = generator_drain ?pushed"
        using 3 False by (intro generator_drain_same_next) simp
      ultimately show ?thesis
        using 3 False by (simp add: generate_data_yields [of ctx child])
    qed
  qed
qed

lemma generator_drain_generate_data:
  "generator_drain (generate_data_start parents s) = generate_data parents s"
  by (simp add: generator_drain_yields generate_data_start_def generate_data_yields)

text \<open>
  C9.  For a section that satisfies the invariant of the built sections (a section at the
  bottom level has no children; the constructor establishes it for any design objects and
  any tree, and \<open>append_design\<close>, \<open>append_child\<close> and \<open>add_data\<close> keep it, see the lemmas
  above), \<open>generate_data\<close> yields the contexts of the sections strictly below it that are
  at the bottom level, in depth-first, left-to-right order: the bottom-level entries of
  \<open>descendants\<close>.  The sequence is a list, no longer than the number of sections below.
  Run step by step, the generator yields exactly this list and then ends.  A call leaves
  the section and its context as they were, so a second call yields the same sequence.
\<close>

theorem generate_data_depth_first_leaves:
  assumes "bottom_childless s"
  shows "generate_data parents s =
           map fst (filter (\<lambda>(c, d). is_bottom_level d) (descendants parents s))
       \<and> length (generate_data parents s) \<le> length (descendants parents s)
       \<and> generator_drain (generate_data_start parents s) = generate_data parents s
       \<and> snd (generate_data_call (parents, s)) = (parents, s)
       \<and> fst (generate_data_call (snd (generate_data_call (parents, s)))) =
           fst (generate_data_call (parents, s))"
proof -
  have g: "generate_data parents s =
           map fst (filter (\<lambda>(c, d). is_bottom_level d) (descendants parents s))"
    using assms by (rule generate_data_descendants)
  have "length (generate_data parents s) \<le> length (descendants parents s)"
    unfolding g by simp
  then show ?thesis
    using g by (simp add: generate_data_call_def generator_drain_generate_data)
qed

theorem generate_data_depth_first_leaves_witness:
  "\<exists>s. ExperimentSection_init (Some order_by_get_order) [] [] (Tree tree_three_levels) = Inr s
     \<and> bottom_childless s
     \<and> map fst (filter (\<lambda>(c, d). is_bottom_level d) (descendants [] s)) =
          [[[(''side'', VStr ''left''), (''block'', VInt 1)],
            [(''order'', VInt 0), (''session'', VInt 1)], []],
           [[(''side'', VStr ''right''), (''block'', VInt 2)],
            [(''order'', VInt 0), (''session'', VInt 1)], []],
           [[(''block'', VInt 3)], [(''order'', VInt 0), (''session'', VInt 1)], []],
           [[(''side'', VStr ''left''), (''block'', VInt 1)],
            [(''order'', VInt 1), (''session'', VInt 2)], []],
           [[(''side'', VStr ''right''), (''block'', VInt 2)],
            [(''order'', VInt 1), (''session'', VInt 2)], []],
           [[(''block'', VInt 3)], [(''order'', VInt 1), (''session'', VInt 2)], []]]"
proof -
  obtain s where s: "ExperimentSection_init (Some order_by_get_order) [] [] (Tree tree_three_levels) = Inr s"
    using three_levels_data by (auto split: sum.splits)
  have bc: "bottom_childless s" using s by (rule ExperimentSection_init_bottom_childless)
  show ?thesis
    using generate_data_depth_first_leaves [OF bc, of "[]"] three_levels_data s bc by simp
qed

text \<open>
  C10.  A section constructed on a tree of logical length 1 is at the bottom level, has no
  children, and its \<open>generate_data\<close> yields nothing.  For every section, its own context
  is not among the contexts it yields, and every context it yields is that of a
  bottom-level section strictly below it.
\<close>

theorem generate_data_bottom_level_section_empty:
  "(ExperimentSection_init oa parents context_own (Tree dt) = Inr s \<and> DesignTree_len dt = 1 \<longrightarrow>
      is_bottom_level s \<and> children s = [] \<and> generate_data parents s = [])
   \<and> own s' # parents' \<notin> set (generate_data parents' s')
   \<and> (\<forall>c \<in> set (generate_data parents' s').
         \<exists>d. (c, d) \<in> set (descendants parents' s') \<and> is_bottom_level d)"
proof (intro conjI impI ballI)
  assume a: "ExperimentSection_init oa parents context_own (Tree dt) = Inr s \<and> DesignTree_len dt = 1"
  then have "s = ExperimentSection context_own (Tree dt) (level_name (hd (levels_and_designs dt)))
               True [] False False None None"
    using ExperimentSection_init_bottom by blast
  then show "is_bottom_level s" "children s = []" "generate_data parents s = []"
    by simp_all
next
  show "own s' # parents' \<notin> set (generate_data parents' s')"
    using generate_data_longer [of "own s' # parents'" parents' s'] by auto
next
  fix c assume "c \<in> set (generate_data parents' s')"
  then show "\<exists>d. (c, d) \<in> set (descendants parents' s') \<and> is_bottom_level d"
    by (rule generate_data_from_descendants)
qed

theorem generate_data_bottom_level_section_empty_witness:
  "ExperimentSection_init Design_order_attr [] [(''participant'', VInt 1)] (Tree tree_trial) =
     Inr (ExperimentSection [(''participant'', VInt 1)] (Tree tree_trial) ''trial'' True []
            False False None None)
   \<and> DesignTree_len tree_trial = 1
   \<and> generate_data []
        (ExperimentSection [(''participant'', VInt 1)] (Tree tree_trial) ''trial'' True []
            False False None None) = []"
  using generate_data_bottom_level_section_empty
    [of Design_order_attr "[]" "[(''participant'', VInt 1)]" tree_trial
        "ExperimentSection [(''participant'', VInt 1)] (Tree tree_trial) ''trial'' True []
            False False None None"]
  by (simp add: ExperimentSection_init.simps tree_trial_def)

lemma number_children_renumbered:
  "number_children self = set_children (renumbered (the (next_level self)) (children self)) self"
  by (simp add: number_children_def renumbered_def)

lemma same_but_refl: "same_but nl a a"
  by (simp add: same_but_def)

lemma same_but_set_own: "same_but nl (set_own (AList.update nl v (own a)) a) a"
  by (simp add: same_but_def set_own_def)

lemma length_renumbered [simp]: "length (renumbered nl cs) = length cs"
  by (simp add: renumbered_def)

lemma nth_renumbered:
  "i < length cs \<Longrightarrow>
   renumbered nl cs ! i = set_own (AList.update nl (VInt (int i + 1)) (own (cs ! i))) (cs ! i)"
  by (simp add: renumbered_def nth_enumerate_eq)

lemma renumbered_same_but:
  "list_all2 (same_but nl) xs ys \<Longrightarrow> renumbered nl xs = renumbered nl ys"
  by (rule nth_equalityI)
    (auto simp: nth_renumbered list_all2_conv_all_nth same_but_def)

lemma same_but_renumbered: "list_all2 (same_but nl) (renumbered nl xs) xs"
  by (auto simp: list_all2_conv_all_nth nth_renumbered same_but_set_own)

lemma renumbered_append_left:
  "renumbered nl (renumbered nl xs @ ys) = renumbered nl (xs @ ys)"
  by (intro renumbered_same_but list_all2_appendI same_but_renumbered)
    (simp add: list_all2_conv_all_nth same_but_refl)

lemma renumbered_append_right:
  "renumbered nl (xs @ renumbered nl ys) = renumbered nl (xs @ ys)"
  by (intro renumbered_same_but list_all2_appendI same_but_renumbered)
    (simp add: list_all2_conv_all_nth same_but_refl)

lemma set_children_twice [simp]: "set_children cs (set_children cs' s) = set_children cs s"
  by (simp add: set_children_def)

lemma set_children_fields [simp]:
  "own (set_children cs s) = own s" "next_level (set_children cs s) = next_level s"
  by (simp_all add: set_children_def)

lemma call_append_child_plain:
  assumes "''self'' \<notin> fst ` set c" "''to_start'' \<notin> fst ` set c"
    and "py_next (tree self) = Inr next_tree"
    and "new_section (own self # parents) (dict_update [] c) next_tree = Inr ch"
    and "next_level self = Some nl"
  shows "call_append_child new_section parents self to_start c =
         Inr (set_children (renumbered nl (if to_start then ch # children self
                                           else children self @ [ch])) self)"
proof -
  have "map_of c ''to_start'' = None" using assms(2) by (simp add: map_of_eq_None_iff)
  then show ?thesis
    using assms by (simp add: call_append_child_def append_child_def number_children_renumbered)
qed

lemma append_children_back:
  assumes "\<forall>c\<in>set conditions. ''self'' \<notin> fst ` set c \<and> ''to_start'' \<notin> fst ` set c"
    and "py_next (tree self) = Inr next_tree"
    and "\<forall>c\<in>set conditions.
           new_section (own self # parents) (dict_update [] c) next_tree = Inr (child c)"
    and "next_level self = Some nl"
  shows "append_children new_section parents self False conditions =
         Inr (if conditions = [] then self
              else set_children (renumbered nl (children self @ map child conditions)) self)"
  using assms
proof (induction conditions arbitrary: self)
  case Nil
  show ?case by simp
next
  case (Cons c cs)
  let ?s1 = "set_children (renumbered nl (children self @ [child c])) self"
  have first: "call_append_child new_section parents self False c = Inr ?s1"
    using call_append_child_plain [of c self next_tree new_section parents "child c" nl False]
      Cons.prems by simp
  have rest: "append_children new_section parents ?s1 False cs =
         Inr (if cs = [] then ?s1
              else set_children (renumbered nl (children ?s1 @ map child cs)) ?s1)"
    using Cons.prems by (intro Cons.IH) simp_all
  show ?case
    using first rest renumbered_append_left [of nl "children self @ [child c]" "map child cs"]
    by simp
qed

lemma append_children_front:
  assumes "\<forall>c\<in>set conditions. ''self'' \<notin> fst ` set c \<and> ''to_start'' \<notin> fst ` set c"
    and "py_next (tree self) = Inr next_tree"
    and "\<forall>c\<in>set conditions.
           new_section (own self # parents) (dict_update [] c) next_tree = Inr (child c)"
    and "next_level self = Some nl"
  shows "append_children new_section parents self True conditions =
         Inr (if conditions = [] then self
              else set_children (renumbered nl (map child (rev conditions) @ children self)) self)"
  using assms
proof (induction conditions arbitrary: self)
  case Nil
  show ?case by simp
next
  case (Cons c cs)
  let ?s1 = "set_children (renumbered nl (child c # children self)) self"
  have first: "call_append_child new_section parents self True c = Inr ?s1"
    using call_append_child_plain [of c self next_tree new_section parents "child c" nl True]
      Cons.prems by simp
  have rest: "append_children new_section parents ?s1 True cs =
         Inr (if cs = [] then ?s1
              else set_children (renumbered nl (map child (rev cs) @ children ?s1)) ?s1)"
    using Cons.prems by (intro Cons.IH) simp_all
  show ?case
    using first rest renumbered_append_right [of nl "map child (rev cs)" "child c # children self"]
    by simp
qed

text \<open>
  What \<open>append_design\<close> does for an object that has a method \<open>order\<close>: for each condition
  the method returns, one child is constructed from the parent's context with a new first
  map holding the condition, on \<open>next(self.tree)\<close>; the children are appended at the back
  in the order of the conditions, or put before the present children in that same order
  when \<open>to_start\<close> is true; then all children are numbered.  (No condition has a key
  \<open>self\<close> or \<open>to_start\<close>, which would be bound to the parameters of \<open>append_child\<close>.)
\<close>

lemma append_design_children:
  assumes "order design (flatten (own self # parents)) = Inr conditions"
    and "conditions \<noteq> []"
    and "\<forall>c\<in>set conditions. ''self'' \<notin> fst ` set c \<and> ''to_start'' \<notin> fst ` set c"
    and "py_next (tree self) = Inr next_tree"
    and "\<forall>c\<in>set conditions.
           new_section (own self # parents) (dict_update [] c) next_tree = Inr (child c)"
    and "next_level self = Some nl"
  shows "append_design (Some order) new_section parents self design to_start =
         Inr (set_children
                (renumbered nl (if to_start then map child conditions @ children self
                                else children self @ map child conditions)) self)"
proof (cases to_start)
  case True
  have "append_children new_section parents self True (rev conditions) =
         Inr (if rev conditions = [] then self
              else set_children (renumbered nl (map child (rev (rev conditions)) @ children self)) self)"
    using assms(3-6) by (intro append_children_front) simp_all
  then show ?thesis using True assms(1,2) by (simp add: append_design_def)
next
  case False
  have "append_children new_section parents self False conditions =
         Inr (if conditions = [] then self
              else set_children (renumbered nl (children self @ map child conditions)) self)"
    using assms(3-6) by (intro append_children_back) simp_all
  then show ?thesis using False assms(1,2) by (simp add: append_design_def)
qed

text \<open>
  C1.  \<open>append_design\<close> calls \<open>design.order(**self.context)\<close>, and a \<open>Design\<close> has no
  attribute \<open>order\<close> (its method is \<open>get_order(data)\<close>): for a \<open>Design\<close> the call raises
  \<open>AttributeError\<close> whatever the section, and so does the construction of a section on a
  tree of two levels.  For an object that has the method, \<open>append_design_children\<close> above
  gives the children the claim describes.
\<close>

theorem append_design_Design_has_no_order:
  "append_design Design_order_attr new_section parents self design to_start = Inl AttributeError
   \<and> ExperimentSection_init Design_order_attr [] [] (Tree tree_two_levels) = Inl AttributeError"
  by (simp add: append_design_def Design_order_attr_def ExperimentSection_init.simps
      tree_two_levels_def)

end
